theory Spec2Isabelle
  imports Complex_Main "HOL-Library.Sublist"
begin

section \<open>Data model\<close>

text \<open>
  The transcription pipeline of \<^verbatim>\<open>src/index.ts\<close> (and of its older variant, which
  resolves speakers with \<^verbatim>\<open>normalizeSpeakers\<close>). JavaScript numbers are modelled as
  \<open>real\<close>: the properties below use addition, comparison and \<open>Math.ceil\<close> only, so
  rounding plays no part in them. A \<^verbatim>\<open>Record<string, string>\<close> is a plain object:
  a map \<open>string \<rightharpoonup> string\<close> of its own properties, read and written with
  \<open>getProperty\<close> and \<open>setProperty\<close>, which account for the inherited members.
\<close>

record transcriptionItem =
  speaker :: string
  startTime :: real
  endTime :: real
  "text" :: string

record accumulatedResultsType =
  title :: string
  slug :: string
  transcription :: "transcriptionItem list"
  summary :: string

text \<open>One entry of \<^verbatim>\<open>allChunkResults\<close>.\<close>

record chunkResult =
  index :: nat
  chunkTranscription :: "transcriptionItem list"

text \<open>
  Whatever an external call throws is an \<open>ExternalError\<close>; \<open>RetriesExhausted\<close> is the
  \<^verbatim>\<open>throw new Error(...)\<close> after the retry loop of \<^verbatim>\<open>transcribeChunk\<close>;
  \<open>TypeError\<close> is what \<^verbatim>\<open>reduce\<close> throws on an empty array without initial value.
\<close>

datatype error = ExternalError string | RetriesExhausted | TypeError

text \<open>
  The prompt of a transcription call is rendered from these values
  (\<^verbatim>\<open>promptTemplate.replace(...)\<close>); the request keeps the values themselves.
\<close>

record transcribeRequest =
  fileData :: string
  promptTemplate :: string
  knownSpeakersHint :: "string list"
  previousContextHint :: string
  customPromptHint :: "string option"

text \<open>A speaker sample: \<^verbatim>\<open>{ speaker, text, path }\<close> of \<^verbatim>\<open>newSamples\<close>.\<close>

record sample =
  sampleSpeaker :: string
  sampleText :: string
  samplePath :: string

text \<open>A value of the \<^verbatim>\<open>confirmedSpeakers\<close> map: \<^verbatim>\<open>{ path, text }\<close>.\<close>

record sampleInfo =
  infoPath :: string
  infoText :: string

text \<open>
  The content of one resolver request: the window, the references
  (name, reference text, audio data) of the confirmed speakers in the map's iteration
  order, and the samples (code, text, audio data) of the new codes.
\<close>

record mappingRequest =
  windowIdx :: nat
  windowCount :: nat
  references :: "(string \<times> string \<times> string) list"
  candidates :: "(string \<times> string \<times> string) list"

text \<open>What the program does to the outside world, in order.\<close>

datatype event =
    ReadFile string
  | Mkdir string
  | Rm string
  | SplitAudio string string real
  | ExtractAudio string real real string
  | Delay nat
  | GenerateTranscription transcribeRequest
  | GenerateSpeakers string
  | GenerateMapping mappingRequest
  | GenerateSummary "transcriptionItem list"
  | GenerateNormalization "transcriptionItem list"
  | WriteFile string

text \<open>
  The outside world. Every external operation answers as a function of the history of
  events so far and of its arguments, so that the same request can fail once and succeed
  later. \<open>ffmpegSplit\<close> is the whole of \<^verbatim>\<open>splitAudio\<close> (directory, ffmpeg run,
  sorted listing of the chunk files), \<open>pathJoin\<close> and \<open>dirname\<close> are those of
  \<^verbatim>\<open>path\<close>, \<open>sampleName\<close> renders \<^verbatim>\<open>sample_${speaker}_chunk${chunkIdx}.mp3\<close>,
  \<open>nameWithoutExt\<close> is the base name without its extension, \<open>promptPath\<close> the path
  of \<^verbatim>\<open>prompt.md\<close>, \<open>tempDir\<close> the directory named after \<^verbatim>\<open>Date.now()\<close>,
  \<open>today\<close> the formatted date, \<open>randomUUID k\<close> the identifier drawn for content
  item \<open>k\<close>, and \<open>attribution\<close> the fixed suffix of the description. The texts sent
  to the inference service are rendered from the request values the events record; the
  serialised transcript of a summary or normalisation request stands for its truncation.
\<close>

record env =
  readFile :: "event list \<Rightarrow> string \<Rightarrow> error + string"
  mkdir :: "event list \<Rightarrow> string \<Rightarrow> error option"
  rm :: "event list \<Rightarrow> string \<Rightarrow> error option"
  ffmpegSplit :: "event list \<Rightarrow> string \<Rightarrow> string \<Rightarrow> real \<Rightarrow> error + string list"
  ffmpegExtract :: "event list \<Rightarrow> string \<Rightarrow> real \<Rightarrow> real \<Rightarrow> string \<Rightarrow> error option"
  generateTranscription :: "event list \<Rightarrow> transcribeRequest \<Rightarrow> error + transcriptionItem list"
  generateSpeakers :: "event list \<Rightarrow> string \<Rightarrow> error + (string \<times> string) list"
  generateMapping :: "event list \<Rightarrow> mappingRequest \<Rightarrow> error + (string \<times> string) list"
  generateSummary :: "event list \<Rightarrow> transcriptionItem list \<Rightarrow> error + (string \<times> string \<times> string)"
  generateNormalization :: "event list \<Rightarrow> transcriptionItem list \<Rightarrow> error + (string \<rightharpoonup> string)"
  writeFile :: "event list \<Rightarrow> string \<Rightarrow> error option"
  pathJoin :: "string \<Rightarrow> string \<Rightarrow> string"
  dirname :: "string \<Rightarrow> string"
  sampleName :: "string \<Rightarrow> nat \<Rightarrow> string"
  nameWithoutExt :: "string \<Rightarrow> string"
  promptPath :: string
  tempDir :: string
  today :: string
  randomUUID :: "nat \<Rightarrow> string"
  attribution :: string

section \<open>Audio extraction\<close>

text \<open>
  \<^verbatim>\<open>extractAudioSegment\<close>: one ffmpeg run with \<^verbatim>\<open>-ss startTime -t duration\<close>.
\<close>

definition extractAudioSegment ::
  "env \<Rightarrow> event list \<Rightarrow> string \<Rightarrow> real \<Rightarrow> real \<Rightarrow> string \<Rightarrow> error option \<times> event list" where
  "extractAudioSegment w tr inputPath startT endT outputPath =
     (let duration = endT - startT in
      (ffmpegExtract w tr inputPath startT duration outputPath,
       tr @ [ExtractAudio inputPath startT duration outputPath]))"

section \<open>transcribeChunk\<close>

text \<open>
  The retry loop: \<open>transcribeRetry w req retries tr\<close> is the state at the loop head
  with \<^verbatim>\<open>retries\<close> attempts left.
\<close>

fun transcribeRetry ::
  "env \<Rightarrow> transcribeRequest \<Rightarrow> nat \<Rightarrow> event list \<Rightarrow> (error + transcriptionItem list) \<times> event list" where
  "transcribeRetry w req 0 tr = (Inl RetriesExhausted, tr)"
| "transcribeRetry w req (Suc retries) tr =
     (case generateTranscription w tr req of
        Inr output \<Rightarrow> (Inr output, tr @ [GenerateTranscription req])
      | Inl e \<Rightarrow>
          if retries = 0 then (Inl e, tr @ [GenerateTranscription req])
          else transcribeRetry w req retries (tr @ [GenerateTranscription req, Delay 2000]))"

definition chunkRequest ::
  "string \<Rightarrow> string \<Rightarrow> string list \<Rightarrow> string option \<Rightarrow> string \<Rightarrow> transcribeRequest" where
  "chunkRequest dat previousContext knownSpeakers customPrompt template =
     \<lparr>fileData = dat, promptTemplate = template, knownSpeakersHint = knownSpeakers,
      previousContextHint = previousContext, customPromptHint = customPrompt\<rparr>"

definition transcribeChunk ::
  "env \<Rightarrow> event list \<Rightarrow> string \<Rightarrow> nat \<Rightarrow> string \<Rightarrow> string list \<Rightarrow> string option \<Rightarrow> string
     \<Rightarrow> (error + transcriptionItem list) \<times> event list" where
  "transcribeChunk w tr chunkPath chunkIndex previousContext knownSpeakers customPrompt template =
     (case readFile w tr chunkPath of
        Inl e \<Rightarrow> (Inl e, tr @ [ReadFile chunkPath])
      | Inr dat \<Rightarrow>
          transcribeRetry w (chunkRequest dat previousContext knownSpeakers customPrompt template)
            3 (tr @ [ReadFile chunkPath]))"

text \<open>
  The history in front of attempt number \<open>k\<close> (counted from 0) of a request that
  starts after \<open>tr\<close>: \<open>k\<close> failed calls, each followed by its delay.
\<close>

definition attemptTrace :: "event list \<Rightarrow> transcribeRequest \<Rightarrow> nat \<Rightarrow> event list" where
  "attemptTrace tr req k = tr @ concat (replicate k [GenerateTranscription req, Delay 2000])"

definition attemptOutcome ::
  "env \<Rightarrow> event list \<Rightarrow> transcribeRequest \<Rightarrow> nat \<Rightarrow> error + transcriptionItem list" where
  "attemptOutcome w tr req k = generateTranscription w (attemptTrace tr req k) req"

definition isCall :: "event \<Rightarrow> bool" where
  "isCall ev = (case ev of GenerateTranscription _ \<Rightarrow> True | _ \<Rightarrow> False)"

section \<open>Sequential transcription\<close>

text \<open>\<^verbatim>\<open>[...new Set(xs)]\<close>: the distinct values of \<open>xs\<close> in order of first occurrence.\<close>

definition setAdd :: "'a list \<Rightarrow> 'a \<Rightarrow> 'a list" where
  "setAdd s x = (if x \<in> set s then s else s @ [x])"

definition uniqueValues :: "'a list \<Rightarrow> 'a list" where
  "uniqueValues xs = foldl setAdd [] xs"

text \<open>The position at which \<open>x\<close> first occurs in \<open>xs\<close> (the length of \<open>xs\<close> if it does not).\<close>

definition firstIndex :: "'a \<Rightarrow> 'a list \<Rightarrow> nat" where
  "firstIndex x xs = length (takeWhile (\<lambda>y. y \<noteq> x) xs)"

text \<open>\<^verbatim>\<open>str.startsWith(searchString)\<close>.\<close>

definition startsWith :: "string \<Rightarrow> string \<Rightarrow> bool" where
  "startsWith str searchString = (take (length searchString) str = searchString)"

text \<open>\<^verbatim>\<open>xs.join(sep)\<close> on strings.\<close>

fun joinWith :: "string \<Rightarrow> string list \<Rightarrow> string" where
  "joinWith sep [] = []"
| "joinWith sep [x] = x"
| "joinWith sep (x # y # ys) = x @ sep @ joinWith sep (y # ys)"

text \<open>
  \<^verbatim>\<open>discoverSpeakers\<close>: any failure of the extraction, the read or the call yields the
  empty hint list.
\<close>

definition discoverSpeakers :: "env \<Rightarrow> event list \<Rightarrow> string \<Rightarrow> string \<Rightarrow> string list \<times> event list" where
  "discoverSpeakers w tr audioPath dir =
     (let samplePath = pathJoin w dir ''discovery_sample.mp3'' in
      case extractAudioSegment w tr audioPath 0 600 samplePath of
        (Some e, tr1) \<Rightarrow> ([], tr1)
      | (None, tr1) \<Rightarrow>
          (case readFile w tr1 samplePath of
             Inl e \<Rightarrow> ([], tr1 @ [ReadFile samplePath])
           | Inr dat \<Rightarrow>
               (case generateSpeakers w (tr1 @ [ReadFile samplePath]) dat of
                  Inl e \<Rightarrow> ([], tr1 @ [ReadFile samplePath, GenerateSpeakers dat])
                | Inr speakers \<Rightarrow>
                    (map (\<lambda>(ident, description). ident @ '': '' @ description) speakers,
                     tr1 @ [ReadFile samplePath, GenerateSpeakers dat]))))"

text \<open>
  The registry update after a chunk: the loop over \<^verbatim>\<open>currentSpeakers\<close> that pushes
  \<open>s\<close> unless some registry entry \<^verbatim>\<open>ks.startsWith(s)\<close>.
\<close>

definition currentSpeakers :: "transcriptionItem list \<Rightarrow> string list" where
  "currentSpeakers chunk = uniqueValues (map speaker chunk)"

definition pushSpeaker :: "string list \<Rightarrow> string \<Rightarrow> string list" where
  "pushSpeaker knownSpeakers s =
     (if \<not> list_ex (\<lambda>ks. startsWith ks s) knownSpeakers then knownSpeakers @ [s] else knownSpeakers)"

fun updateKnownSpeakers :: "string list \<Rightarrow> string list \<Rightarrow> string list" where
  "updateKnownSpeakers knownSpeakers [] = knownSpeakers"
| "updateKnownSpeakers knownSpeakers (s # rest) = updateKnownSpeakers (pushSpeaker knownSpeakers s) rest"

text \<open>The context handed to the next chunk: the last \<open>k\<close> lines, \<^verbatim>\<open>slice(-k)\<close>.\<close>

definition contextOf :: "nat \<Rightarrow> transcriptionItem list \<Rightarrow> string" where
  "contextOf k ts =
     joinWith [CHR 0x0A] (map (\<lambda>t. speaker t @ '': '' @ text t) (drop (length ts - k) ts))"

text \<open>
  The transcription loop of \<^verbatim>\<open>processAudioFile\<close>, at index \<open>i\<close> with the chunk paths
  from \<open>i\<close> on still to do.
\<close>

fun transcribeLoop ::
  "env \<Rightarrow> string option \<Rightarrow> string \<Rightarrow> string list \<Rightarrow> nat \<Rightarrow> string \<Rightarrow> string list \<Rightarrow> chunkResult list
     \<Rightarrow> event list \<Rightarrow> (error + chunkResult list) \<times> event list" where
  "transcribeLoop w customPrompt template [] i previousContext knownSpeakers allChunkResults tr =
     (Inr allChunkResults, tr)"
| "transcribeLoop w customPrompt template (chunkPath # rest) i previousContext knownSpeakers allChunkResults tr =
     (case transcribeChunk w tr chunkPath i previousContext knownSpeakers customPrompt template of
        (Inl e, tr1) \<Rightarrow> (Inl e, tr1)
      | (Inr chunk, tr1) \<Rightarrow>
          (let results = allChunkResults @ [\<lparr>index = i, chunkTranscription = chunk\<rparr>] in
           transcribeLoop w customPrompt template rest (Suc i)
             (contextOf 100 (concat (map chunkTranscription results)))
             (updateKnownSpeakers knownSpeakers (currentSpeakers chunk))
             results tr1))"

text \<open>The merge loop: every item of every chunk result, shifted by its chunk's offset.\<close>

definition segmentTime :: real where
  "segmentTime = 60 * 10"

definition rebase :: "real \<Rightarrow> transcriptionItem \<Rightarrow> transcriptionItem" where
  "rebase timeOffset item =
     item\<lparr>startTime := startTime item + timeOffset, endTime := endTime item + timeOffset\<rparr>"

fun mergeChunks :: "real \<Rightarrow> chunkResult list \<Rightarrow> transcriptionItem list \<Rightarrow> transcriptionItem list" where
  "mergeChunks seg [] acc = acc"
| "mergeChunks seg (chunkResult # rest) acc =
     mergeChunks seg rest
       (acc @ map (rebase (real (index chunkResult) * seg)) (chunkTranscription chunkResult))"

section \<open>identifySpeakersWithAudio\<close>

text \<open>
  Reading and writing a property of a plain object (\<^verbatim>\<open>globalMapping\<close>, made as
  \<^verbatim>\<open>{}\<close>, and \<^verbatim>\<open>output.mapping\<close>). The map holds the object's own properties. A key
  that is no own property but names a member every plain object inherits yields that
  member: a function, or the prototype object for \<^verbatim>\<open>__proto__\<close>; it is truthy and it
  is not a string. Assigning a string to \<^verbatim>\<open>__proto__\<close> reaches the inherited setter,
  which ignores it, so no own property is made; any other key becomes an own property.
\<close>

datatype jsValue = Undefined | Str string | Member string

definition inheritedNames :: "string list" where
  "inheritedNames =
     [''constructor'', ''__defineGetter__'', ''__defineSetter__'', ''hasOwnProperty'',
      ''__lookupGetter__'', ''__lookupSetter__'', ''isPrototypeOf'', ''propertyIsEnumerable'',
      ''toString'', ''valueOf'', ''__proto__'', ''toLocaleString'']"

definition getProperty :: "(string \<rightharpoonup> string) \<Rightarrow> string \<Rightarrow> jsValue" where
  "getProperty obj key =
     (case obj key of
        Some v \<Rightarrow> Str v
      | None \<Rightarrow> if key \<in> set inheritedNames then Member key else Undefined)"

definition setProperty :: "(string \<rightharpoonup> string) \<Rightarrow> string \<Rightarrow> string \<Rightarrow> (string \<rightharpoonup> string)" where
  "setProperty obj key v = (if key = ''__proto__'' then obj else obj(key \<mapsto> v))"

text \<open>\<^verbatim>\<open>!globalMapping[s]\<close> tests the value read: only undefined and the empty string are falsy.\<close>

definition truthy :: "jsValue \<Rightarrow> bool" where
  "truthy v = (case v of Undefined \<Rightarrow> False | Str s \<Rightarrow> s \<noteq> [] | Member name \<Rightarrow> True)"

text \<open>
  \<^verbatim>\<open>mapping[item.speaker] || item.speaker\<close>, stored in the speaker field. The field is
  declared a string; when the value read is an inherited member the field holds that
  member, which no string describes, and the model leaves the field's value open.
\<close>

definition orElse :: "jsValue \<Rightarrow> string \<Rightarrow> string" where
  "orElse v d =
     (case v of
        Undefined \<Rightarrow> d
      | Str s \<Rightarrow> if s = [] then d else s
      | Member name \<Rightarrow> undefined)"

definition applyMapping :: "(string \<rightharpoonup> string) \<Rightarrow> transcriptionItem list \<Rightarrow> transcriptionItem list" where
  "applyMapping mapping ts =
     map (\<lambda>item. item\<lparr>speaker := orElse (getProperty mapping (speaker item)) (speaker item)\<rparr>) ts"

text \<open>A JavaScript \<^verbatim>\<open>Map\<close> in insertion order.\<close>

definition mapHas :: "('k \<times> 'v) list \<Rightarrow> 'k \<Rightarrow> bool" where
  "mapHas m k = (map_of m k \<noteq> None)"

fun mapSet :: "('k \<times> 'v) list \<Rightarrow> 'k \<Rightarrow> 'v \<Rightarrow> ('k \<times> 'v) list" where
  "mapSet [] k v = [(k, v)]"
| "mapSet ((k', v') # m) k v = (if k' = k then (k, v) # m else (k', v') # mapSet m k v)"

record resolverState =
  globalMapping :: "string \<rightharpoonup> string"
  confirmedSpeakers :: "(string \<times> sampleInfo) list"

definition identificationChunkTime :: real where
  "identificationChunkTime = 300"

text \<open>\<^verbatim>\<open>Math.max(...transcription.map((i) => i.endTime), 0)\<close>.\<close>

definition maxTime :: "transcriptionItem list \<Rightarrow> real" where
  "maxTime ts = foldr max (map endTime ts) 0"

definition numChunks :: "transcriptionItem list \<Rightarrow> nat" where
  "numChunks ts = nat \<lceil>maxTime ts / identificationChunkTime\<rceil>"

definition chunkItems :: "transcriptionItem list \<Rightarrow> nat \<Rightarrow> transcriptionItem list" where
  "chunkItems ts chunkIdx =
     filter (\<lambda>i. startTime i \<ge> real chunkIdx * identificationChunkTime
                \<and> startTime i < real (chunkIdx + 1) * identificationChunkTime) ts"

definition unknownSpeakers :: "(string \<rightharpoonup> string) \<Rightarrow> transcriptionItem list \<Rightarrow> string list" where
  "unknownSpeakers mapping items =
     filter (\<lambda>s. \<not> truthy (getProperty mapping s)) (uniqueValues (map speaker items))"

text \<open>The longest item, the earliest among equals; \<^verbatim>\<open>reduce\<close> throws on no items.\<close>

definition bestItem :: "transcriptionItem list \<Rightarrow> error + transcriptionItem" where
  "bestItem speakerItems =
     (case speakerItems of
        [] \<Rightarrow> Inl TypeError
      | first # others \<Rightarrow>
          Inr (foldl (\<lambda>prev curr.
                 if endTime curr - startTime curr > endTime prev - startTime prev then curr else prev)
               first others))"

fun extractSamples ::
  "env \<Rightarrow> string \<Rightarrow> string \<Rightarrow> nat \<Rightarrow> transcriptionItem list \<Rightarrow> string list \<Rightarrow> sample list
     \<Rightarrow> event list \<Rightarrow> (error + sample list) \<times> event list" where
  "extractSamples w originalAudioPath samplesDir chunkIdx items [] newSamples tr = (Inr newSamples, tr)"
| "extractSamples w originalAudioPath samplesDir chunkIdx items (s # rest) newSamples tr =
     (case bestItem (filter (\<lambda>i. speaker i = s) items) of
        Inl e \<Rightarrow> (Inl e, tr)
      | Inr best \<Rightarrow>
          (let path = pathJoin w samplesDir (sampleName w s chunkIdx) in
           case extractAudioSegment w tr originalAudioPath
                  (max 0 (startTime best - 0.2)) (endTime best + 0.2) path of
             (Some e, tr1) \<Rightarrow> (Inl e, tr1)
           | (None, tr1) \<Rightarrow>
               extractSamples w originalAudioPath samplesDir chunkIdx items rest
                 (newSamples @ [\<lparr>sampleSpeaker = s, sampleText = text best, samplePath = path\<rparr>]) tr1))"

text \<open>Reading the audio of the references and of the new samples, one file after the other.\<close>

fun readReferences ::
  "env \<Rightarrow> (string \<times> sampleInfo) list \<Rightarrow> (string \<times> string \<times> string) list \<Rightarrow> event list
     \<Rightarrow> (error + (string \<times> string \<times> string) list) \<times> event list" where
  "readReferences w [] content tr = (Inr content, tr)"
| "readReferences w ((name, info) # rest) content tr =
     (case readFile w tr (infoPath info) of
        Inl e \<Rightarrow> (Inl e, tr @ [ReadFile (infoPath info)])
      | Inr dat \<Rightarrow>
          readReferences w rest (content @ [(name, infoText info, dat)]) (tr @ [ReadFile (infoPath info)]))"

fun readSamples ::
  "env \<Rightarrow> sample list \<Rightarrow> (string \<times> string \<times> string) list \<Rightarrow> event list
     \<Rightarrow> (error + (string \<times> string \<times> string) list) \<times> event list" where
  "readSamples w [] content tr = (Inr content, tr)"
| "readSamples w (smp # rest) content tr =
     (case readFile w tr (samplePath smp) of
        Inl e \<Rightarrow> (Inl e, tr @ [ReadFile (samplePath smp)])
      | Inr dat \<Rightarrow>
          readSamples w rest (content @ [(sampleSpeaker smp, sampleText smp, dat)])
            (tr @ [ReadFile (samplePath smp)]))"

text \<open>The loop over \<^verbatim>\<open>Object.entries(output.mapping)\<close>.\<close>

fun updateMapping :: "(string \<times> string) list \<Rightarrow> sample list \<Rightarrow> resolverState \<Rightarrow> resolverState" where
  "updateMapping [] newSamples st = st"
| "updateMapping ((original, mapped) # rest) newSamples st =
     updateMapping rest newSamples
       \<lparr>globalMapping = setProperty (globalMapping st) original mapped,
        confirmedSpeakers =
          (if \<not> mapHas (confirmedSpeakers st) mapped then
             (case find (\<lambda>s. sampleSpeaker s = original) newSamples of
                Some smp \<Rightarrow>
                  mapSet (confirmedSpeakers st) mapped \<lparr>infoPath = samplePath smp, infoText = sampleText smp\<rparr>
              | None \<Rightarrow> confirmedSpeakers st)
           else confirmedSpeakers st)\<rparr>"

text \<open>One iteration of the loop over the time windows.\<close>

definition identifyWindow ::
  "env \<Rightarrow> transcriptionItem list \<Rightarrow> string \<Rightarrow> string \<Rightarrow> nat \<Rightarrow> nat \<Rightarrow> resolverState \<Rightarrow> event list
     \<Rightarrow> (error + resolverState) \<times> event list" where
  "identifyWindow w ts originalAudioPath samplesDir n chunkIdx st tr =
     (let items = chunkItems ts chunkIdx in
      if items = [] then (Inr st, tr)
      else
        let unknown = unknownSpeakers (globalMapping st) items in
        if unknown = [] then (Inr st, tr)
        else
          case extractSamples w originalAudioPath samplesDir chunkIdx items unknown [] tr of
            (Inl e, tr1) \<Rightarrow> (Inl e, tr1)
          | (Inr newSamples, tr1) \<Rightarrow>
              (case readReferences w (confirmedSpeakers st) [] tr1 of
                 (Inl e, tr2) \<Rightarrow> (Inl e, tr2)
               | (Inr refs, tr2) \<Rightarrow>
                   (case readSamples w newSamples [] tr2 of
                      (Inl e, tr3) \<Rightarrow> (Inl e, tr3)
                    | (Inr cands, tr3) \<Rightarrow>
                        (let req = \<lparr>windowIdx = chunkIdx, windowCount = n,
                                    references = refs, candidates = cands\<rparr> in
                         case generateMapping w tr3 req of
                           Inl e \<Rightarrow> (Inl e, tr3 @ [GenerateMapping req])
                         | Inr entries \<Rightarrow>
                             (Inr (updateMapping entries newSamples st),
                              tr3 @ [GenerateMapping req])))))"

fun identifyWindows ::
  "env \<Rightarrow> transcriptionItem list \<Rightarrow> string \<Rightarrow> string \<Rightarrow> nat \<Rightarrow> nat list \<Rightarrow> resolverState \<Rightarrow> event list
     \<Rightarrow> (error + resolverState) \<times> event list" where
  "identifyWindows w ts originalAudioPath samplesDir n [] st tr = (Inr st, tr)"
| "identifyWindows w ts originalAudioPath samplesDir n (chunkIdx # rest) st tr =
     (case identifyWindow w ts originalAudioPath samplesDir n chunkIdx st tr of
        (Inl e, tr1) \<Rightarrow> (Inl e, tr1)
      | (Inr st1, tr1) \<Rightarrow> identifyWindows w ts originalAudioPath samplesDir n rest st1 tr1)"

definition initialState :: resolverState where
  "initialState = \<lparr>globalMapping = Map.empty, confirmedSpeakers = []\<rparr>"

text \<open>
  The loop of \<^verbatim>\<open>identifySpeakersWithAudio\<close> over \<^verbatim>\<open>chunkIdx = 0 .. numChunks - 1\<close>,
  after the samples directory is made.
\<close>

definition resolveWindows ::
  "env \<Rightarrow> event list \<Rightarrow> transcriptionItem list \<Rightarrow> string \<Rightarrow> string
     \<Rightarrow> (error + resolverState) \<times> event list" where
  "resolveWindows w tr ts originalAudioPath dir =
     (let samplesDir = pathJoin w dir ''samples'' in
      case mkdir w tr samplesDir of
        Some e \<Rightarrow> (Inl e, tr @ [Mkdir samplesDir])
      | None \<Rightarrow>
          identifyWindows w ts originalAudioPath samplesDir (numChunks ts) [0 ..< numChunks ts]
            initialState (tr @ [Mkdir samplesDir]))"

definition identifySpeakersWithAudio ::
  "env \<Rightarrow> event list \<Rightarrow> accumulatedResultsType \<Rightarrow> string \<Rightarrow> string
     \<Rightarrow> (error + accumulatedResultsType) \<times> event list" where
  "identifySpeakersWithAudio w tr accumulatedResults originalAudioPath dir =
     (case resolveWindows w tr (transcription accumulatedResults) originalAudioPath dir of
        (Inl e, tr1) \<Rightarrow> (Inl e, tr1)
      | (Inr st, tr1) \<Rightarrow>
          (Inr (accumulatedResults
                  \<lparr>transcription := applyMapping (globalMapping st) (transcription accumulatedResults)\<rparr>),
           tr1))"

section \<open>Title, summary and the persisted artifact\<close>

definition generateTitleAndSummary ::
  "env \<Rightarrow> event list \<Rightarrow> accumulatedResultsType \<Rightarrow> (error + accumulatedResultsType) \<times> event list" where
  "generateTitleAndSummary w tr accumulatedResults =
     (case generateSummary w tr (transcription accumulatedResults) of
        Inl e \<Rightarrow> (Inl e, tr @ [GenerateSummary (transcription accumulatedResults)])
      | Inr (outTitle, outSlug, outSummary) \<Rightarrow>
          (Inr (accumulatedResults\<lparr>title := outTitle, slug := outSlug, summary := outSummary\<rparr>),
           tr @ [GenerateSummary (transcription accumulatedResults)]))"

record artifactInfo =
  infoFilename :: string
  infoName :: string
  infoSlug :: string
  infoDate :: string
  infoDescription :: string

record contentItem =
  contentId :: string
  contentStart :: real
  contentEnd :: real
  contentType :: string
  contentSpeaker :: string
  contentText :: string

record artifact =
  info :: artifactInfo
  content :: "contentItem list"

text \<open>
  \<^verbatim>\<open>processTranscription\<close>. Nothing in its \<^verbatim>\<open>try\<close> block throws on a response of the
  declared type, so the model is that block; the \<^verbatim>\<open>catch\<close> block is never entered.
\<close>

definition processTranscription :: "env \<Rightarrow> accumulatedResultsType \<Rightarrow> string \<Rightarrow> artifact" where
  "processTranscription w response fileName =
     \<lparr>info = \<lparr>infoFilename = fileName, infoName = title response, infoSlug = slug response,
              infoDate = today w, infoDescription = summary response @ attribution w\<rparr>,
      content = map (\<lambda>(k, item).
                  \<lparr>contentId = randomUUID w k, contentStart = startTime item, contentEnd = endTime item,
                   contentType = ''speech'', contentSpeaker = speaker item, contentText = text item\<rparr>)
                (enumerate 0 (transcription response))\<rparr>"

section \<open>processAudioFile and main\<close>

definition emptyResults :: accumulatedResultsType where
  "emptyResults = \<lparr>title = [], slug = [], transcription = [], summary = []\<rparr>"

text \<open>The \<^verbatim>\<open>try\<close> block of \<^verbatim>\<open>processAudioFile\<close>.\<close>

definition pipeline ::
  "env \<Rightarrow> event list \<Rightarrow> string \<Rightarrow> string option \<Rightarrow> string \<Rightarrow> (error + artifact) \<times> event list" where
  "pipeline w tr filePath customPrompt template =
     (case ffmpegSplit w tr filePath (tempDir w) segmentTime of
        Inl e \<Rightarrow> (Inl e, tr @ [SplitAudio filePath (tempDir w) segmentTime])
      | Inr chunkPaths \<Rightarrow>
          (case discoverSpeakers w (tr @ [SplitAudio filePath (tempDir w) segmentTime]) filePath (tempDir w) of
             (initialSpeakers, tr1) \<Rightarrow>
               (case transcribeLoop w customPrompt template chunkPaths 0 [] initialSpeakers [] tr1 of
                  (Inl e, tr2) \<Rightarrow> (Inl e, tr2)
                | (Inr allChunkResults, tr2) \<Rightarrow>
                    (case identifySpeakersWithAudio w tr2
                            (emptyResults\<lparr>transcription := mergeChunks segmentTime allChunkResults []\<rparr>)
                            filePath (tempDir w) of
                       (Inl e, tr3) \<Rightarrow> (Inl e, tr3)
                     | (Inr resolved, tr3) \<Rightarrow>
                         (case generateTitleAndSummary w tr3 resolved of
                            (Inl e, tr4) \<Rightarrow> (Inl e, tr4)
                          | (Inr summarised, tr4) \<Rightarrow>
                              (Inr (processTranscription w summarised (nameWithoutExt w filePath)), tr4))))))"

text \<open>
  \<^verbatim>\<open>processAudioFile\<close>: the prompt template is read before the \<^verbatim>\<open>try\<close>; the
  \<^verbatim>\<open>finally\<close> block removes the temporary directory, and a failure to do so is
  only logged.
\<close>

definition processAudioFile ::
  "env \<Rightarrow> event list \<Rightarrow> string \<Rightarrow> string option \<Rightarrow> (error + artifact) \<times> event list" where
  "processAudioFile w tr filePath customPrompt =
     (case readFile w tr (promptPath w) of
        Inl e \<Rightarrow> (Inl e, tr @ [ReadFile (promptPath w)])
      | Inr template \<Rightarrow>
          (case pipeline w (tr @ [ReadFile (promptPath w)]) filePath customPrompt template of
             (r, tr1) \<Rightarrow> (r, tr1 @ [Rm (tempDir w)])))"

text \<open>
  The transcription branch of \<^verbatim>\<open>main\<close>, from the call of \<^verbatim>\<open>processAudioFile\<close> on;
  \<^verbatim>\<open>customPrompt || undefined\<close> turns an empty prompt into none.
\<close>

definition outputPath :: "env \<Rightarrow> string \<Rightarrow> artifact \<Rightarrow> string" where
  "outputPath w mediaPath result = pathJoin w (dirname w mediaPath) (infoSlug (info result) @ ''.json'')"

definition main :: "env \<Rightarrow> event list \<Rightarrow> string \<Rightarrow> string option \<Rightarrow> (error + artifact) \<times> event list" where
  "main w tr mediaPath customPrompt =
     (case processAudioFile w tr mediaPath (if customPrompt = Some [] then None else customPrompt) of
        (Inl e, tr1) \<Rightarrow> (Inl e, tr1)
      | (Inr result, tr1) \<Rightarrow>
          (case writeFile w tr1 (outputPath w mediaPath result) of
             Some e \<Rightarrow> (Inl e, tr1 @ [WriteFile (outputPath w mediaPath result)])
           | None \<Rightarrow> (Inr result, tr1 @ [WriteFile (outputPath w mediaPath result)])))"

section \<open>The older pipeline: text-based normalisation\<close>


definition normalizeSpeakers ::
  "env \<Rightarrow> event list \<Rightarrow> accumulatedResultsType \<Rightarrow> (error + accumulatedResultsType) \<times> event list" where
  "normalizeSpeakers w tr accumulatedResults =
     (case generateNormalization w tr (transcription accumulatedResults) of
        Inl e \<Rightarrow> (Inl e, tr @ [GenerateNormalization (transcription accumulatedResults)])
      | Inr mapping \<Rightarrow>
          (Inr (accumulatedResults
                  \<lparr>transcription := applyMapping mapping (transcription accumulatedResults)\<rparr>),
           tr @ [GenerateNormalization (transcription accumulatedResults)]))"

section \<open>Sample worlds\<close>

text \<open>Concrete worlds and items on which the theorems below are instantiated.\<close>

definition isDelay :: "event \<Rightarrow> bool" where
  "isDelay ev = (case ev of Delay _ \<Rightarrow> True | _ \<Rightarrow> False)"

definition quietWorld :: env where
  "quietWorld =
     \<lparr>readFile = (\<lambda>tr p. Inr (''data:'' @ p)),
      mkdir = (\<lambda>tr p. None),
      rm = (\<lambda>tr p. None),
      ffmpegSplit = (\<lambda>tr p d s. Inr []),
      ffmpegExtract = (\<lambda>tr p s d out. None),
      generateTranscription = (\<lambda>tr req. Inr []),
      generateSpeakers = (\<lambda>tr d. Inr []),
      generateMapping = (\<lambda>tr req. Inr []),
      generateSummary = (\<lambda>tr ts. Inr ('''', '''', '''')),
      generateNormalization = (\<lambda>tr ts. Inr Map.empty),
      writeFile = (\<lambda>tr p. None),
      pathJoin = (\<lambda>a b. a @ ''/'' @ b),
      dirname = (\<lambda>p. ''.''),
      sampleName = (\<lambda>s k. ''sample_'' @ s @ ''_chunk'' @ replicate k (CHR ''I'') @ ''.mp3''),
      nameWithoutExt = (\<lambda>p. p),
      promptPath = ''prompt.md'',
      tempDir = ''temp_chunks'',
      today = ''2026-01-01'',
      randomUUID = (\<lambda>k. replicate (Suc k) (CHR ''u'')),
      attribution = '' (transcribed)''\<rparr>"

definition hello :: transcriptionItem where
  "hello = \<lparr>speaker = ''SPEAKER_01'', startTime = 0, endTime = 40, text = ''hello''\<rparr>"

definition flakyWorld :: "nat \<Rightarrow> env" where
  "flakyWorld n = quietWorld\<lparr>generateTranscription :=
      (\<lambda>tr req. if length (filter isDelay tr) < n then Inl (ExternalError (replicate (length (filter isDelay tr)) (CHR ''x'')))
                 else Inr [hello])\<rparr>"

definition greeting :: transcriptionItem where
  "greeting = \<lparr>speaker = ''SPEAKER_01'', startTime = 0, endTime = 30, text = ''greeting''\<rparr>"

definition reply :: transcriptionItem where
  "reply = \<lparr>speaker = ''SPEAKER_02'', startTime = 30, endTime = 55, text = ''thanks''\<rparr>"

definition decorated :: transcriptionItem where
  "decorated = \<lparr>speaker = ''SPEAKER_01_B'', startTime = 0, endTime = 10, text = ''well''\<rparr>"

definition twoChunkWorld :: env where
  "twoChunkWorld = quietWorld\<lparr>generateTranscription :=
      (\<lambda>tr req. if fileData req = ''data:chunk_000.mp3'' then Inr [greeting, reply] else Inr [hello])\<rparr>"

definition twoChunks :: "chunkResult list" where
  "twoChunks = [\<lparr>index = 0, chunkTranscription = [greeting, reply]\<rparr>,
                \<lparr>index = 1, chunkTranscription = [hello]\<rparr>]"

definition aliceBob :: "string \<rightharpoonup> string" where
  "aliceBob = [''SPEAKER_01'' \<mapsto> ''Alice'', ''SPEAKER_02'' \<mapsto> ''Bob'']"

definition aliceBobWorld :: env where
  "aliceBobWorld = quietWorld\<lparr>generateNormalization := (\<lambda>tr ts. Inr aliceBob)\<rparr>"

definition blankName :: "string \<rightharpoonup> string" where
  "blankName = [''SPEAKER_01'' \<mapsto> '''']"

definition blankNameWorld :: env where
  "blankNameWorld = quietWorld
     \<lparr>generateNormalization := (\<lambda>tr ts. Inr blankName),
      generateMapping := (\<lambda>tr req. Inr [(''SPEAKER_01'', [])])\<rparr>"

definition selfMapping :: "string \<rightharpoonup> string" where
  "selfMapping = [''SPEAKER_01'' \<mapsto> ''SPEAKER_01'', ''SPEAKER_02'' \<mapsto> ''SPEAKER_02'']"

definition selfMappingWorld :: env where
  "selfMappingWorld = quietWorld\<lparr>generateNormalization := (\<lambda>tr ts. Inr selfMapping)\<rparr>"

definition merged3 :: "transcriptionItem list" where
  "merged3 = [greeting, reply, rebase 600 hello]"

definition merging :: "transcriptionItem list" where
  "merging = [greeting, reply, rebase 600 (hello\<lparr>speaker := ''SPEAKER_03''\<rparr>)]"

definition mergingWorld :: env where
  "mergingWorld = quietWorld\<lparr>generateMapping :=
      (\<lambda>tr req. if windowIdx req = 0
                 then Inr [(''SPEAKER_01'', ''Alice''), (''SPEAKER_02'', ''Bob'')]
                 else Inr [(''SPEAKER_03'', ''Alice'')])\<rparr>"

definition aliceSample :: sampleInfo where
  "aliceSample = \<lparr>infoPath = ''tmp/samples/sample_SPEAKER_01_chunk.mp3'', infoText = ''greeting''\<rparr>"

definition bobSample :: sampleInfo where
  "bobSample = \<lparr>infoPath = ''tmp/samples/sample_SPEAKER_02_chunk.mp3'', infoText = ''thanks''\<rparr>"

definition aliceBobState :: resolverState where
  "aliceBobState = \<lparr>globalMapping = aliceBob,
                     confirmedSpeakers = [(''Alice'', aliceSample), (''Bob'', bobSample)]\<rparr>"

definition twice :: "transcriptionItem list" where
  "twice = [hello, rebase 300 hello]"

definition blankSample :: sampleInfo where
  "blankSample = \<lparr>infoPath = ''tmp/samples/sample_SPEAKER_01_chunk.mp3'', infoText = ''hello''\<rparr>"

definition blankState :: resolverState where
  "blankState = \<lparr>globalMapping = blankName, confirmedSpeakers = [('''', blankSample)]\<rparr>"

text \<open>The characters a slug may consist of.\<close>

definition slugChar :: "char \<Rightarrow> bool" where
  "slugChar c = (c \<in> set ''abcdefghijklmnopqrstuvwxyz0123456789-'')"

definition shoutWorld :: env where
  "shoutWorld = quietWorld
     \<lparr>ffmpegSplit := (\<lambda>tr p d s. Inr [''chunk_000.mp3'']),
      generateTranscription := (\<lambda>tr req. Inr [hello]),
      generateSummary := (\<lambda>tr ts. Inr (''Talk'', ''My Talk!'', ''points''))\<rparr>"

section \<open>Verification\<close>

subsection \<open>Retry policy\<close>

lemma retry3:
  "transcribeRetry w req 3 tr =
    (case attemptOutcome w tr req 0 of Inr out \<Rightarrow> (Inr out, attemptTrace tr req 0 @ [GenerateTranscription req])
     | Inl e0 \<Rightarrow> (case attemptOutcome w tr req 1 of Inr out \<Rightarrow> (Inr out, attemptTrace tr req 1 @ [GenerateTranscription req])
     | Inl e1 \<Rightarrow> (case attemptOutcome w tr req 2 of Inr out \<Rightarrow> (Inr out, attemptTrace tr req 2 @ [GenerateTranscription req])
     | Inl e2 \<Rightarrow> (Inl e2, attemptTrace tr req 2 @ [GenerateTranscription req]))))"
  by (simp add: numeral_3_eq_3 numeral_2_eq_2 attemptOutcome_def attemptTrace_def split: sum.splits)

lemma isCall_simps:
  "isCall (GenerateTranscription r) = True" "isCall (Delay n) = False" "isCall (ReadFile p) = False"
  by (simp_all add: isCall_def)

lemma calls_attemptTrace:
  "length (filter isCall (attemptTrace tr req k)) = length (filter isCall tr) + k"
  by (induction k) (simp_all add: attemptTrace_def isCall_simps)

text \<open>
  C2. \<^verbatim>\<open>transcribeChunk\<close>, once the chunk file is read, calls the inference service at
  most 3 times, with a delay of 2000 ms between consecutive calls. If the calls before
  call \<open>k < 3\<close> fail and call \<open>k\<close> succeeds, its transcription is returned and no
  further call is made (\<open>k = 2\<close>: fails exactly twice, then succeeds). If all three
  calls fail, the error of the third call is returned and no further call or delay follows.
\<close>

theorem transcribeChunk_retry_bound:
  assumes rd: "readFile w tr chunkPath = Inr dat"
    and req: "req = chunkRequest dat previousContext knownSpeakers customPrompt template"
    and tr0: "tr0 = tr @ [ReadFile chunkPath]"
    and res: "res = transcribeChunk w tr chunkPath chunkIndex previousContext knownSpeakers customPrompt template"
  shows "(\<forall>k out. k < 3 \<longrightarrow> (\<forall>j<k. isl (attemptOutcome w tr0 req j)) \<longrightarrow>
            attemptOutcome w tr0 req k = Inr out \<longrightarrow>
            res = (Inr out, attemptTrace tr0 req k @ [GenerateTranscription req]))
       \<and> (\<forall>e. (\<forall>j<2. isl (attemptOutcome w tr0 req j)) \<longrightarrow>
            attemptOutcome w tr0 req 2 = Inl e \<longrightarrow>
            res = (Inl e, attemptTrace tr0 req 2 @ [GenerateTranscription req]))
       \<and> length (filter isCall (snd res)) \<le> length (filter isCall tr) + 3"
proof -
  have unfold: "res = transcribeRetry w req 3 tr0"
    using rd by (simp add: res transcribeChunk_def req tr0)
  have lt3: "k < 3 \<longleftrightarrow> k = 0 \<or> k = 1 \<or> k = 2" for k :: nat
    by arith
  have ok: "res = (Inr out, attemptTrace tr0 req k @ [GenerateTranscription req])"
    if "k < 3" "\<forall>j<k. isl (attemptOutcome w tr0 req j)" "attemptOutcome w tr0 req k = Inr out"
    for k out
  proof -
    from that(1) consider "k = 0" | "k = 1" | "k = 2" by arith
    then show ?thesis
    proof cases
      case 1
      with that(3) show ?thesis by (simp add: unfold retry3)
    next
      case 2
      with that(2) have "isl (attemptOutcome w tr0 req 0)" by simp
      with 2 that(3) show ?thesis by (auto simp: unfold retry3 split: sum.splits)
    next
      case 3
      with that(2) have "isl (attemptOutcome w tr0 req 0)" "isl (attemptOutcome w tr0 req 1)"
        by simp_all
      with 3 that(3) show ?thesis by (auto simp: unfold retry3 split: sum.splits)
    qed
  qed
  have bad: "res = (Inl e, attemptTrace tr0 req 2 @ [GenerateTranscription req])"
    if "\<forall>j<2. isl (attemptOutcome w tr0 req j)" "attemptOutcome w tr0 req 2 = Inl e" for e
  proof -
    from that(1) have "isl (attemptOutcome w tr0 req 0)" "isl (attemptOutcome w tr0 req 1)"
      by simp_all
    with that(2) show ?thesis by (auto simp: unfold retry3 split: sum.splits)
  qed
  have cnt: "length (filter isCall (snd res)) \<le> length (filter isCall tr) + 3"
    by (simp add: unfold retry3 calls_attemptTrace tr0 isCall_simps split: sum.splits)
  from ok bad cnt show ?thesis by blast
qed

lemma flaky_outcome:
  "attemptOutcome (flakyWorld n) tr req k =
     (if length (filter isDelay tr) + k < n
      then Inl (ExternalError (replicate (length (filter isDelay tr) + k) (CHR ''x'')))
      else Inr [hello])"
proof -
  have "length (filter isDelay (attemptTrace tr req k)) = length (filter isDelay tr) + k"
    by (induction k) (simp_all add: attemptTrace_def isDelay_def)
  then show ?thesis
    by (simp add: attemptOutcome_def flakyWorld_def)
qed

theorem transcribeChunk_retry_bound_witness:
  "transcribeChunk (flakyWorld 2) [] ''chunk_000.mp3'' 0 [] [] None ''prompt''
     = (Inr [hello],
        [ReadFile ''chunk_000.mp3'',
         GenerateTranscription (chunkRequest ''data:chunk_000.mp3'' [] [] None ''prompt''), Delay 2000,
         GenerateTranscription (chunkRequest ''data:chunk_000.mp3'' [] [] None ''prompt''), Delay 2000,
         GenerateTranscription (chunkRequest ''data:chunk_000.mp3'' [] [] None ''prompt'')])
   \<and> transcribeChunk (flakyWorld 5) [] ''chunk_000.mp3'' 0 [] [] None ''prompt''
     = (Inl (ExternalError ''xx''),
        [ReadFile ''chunk_000.mp3'',
         GenerateTranscription (chunkRequest ''data:chunk_000.mp3'' [] [] None ''prompt''), Delay 2000,
         GenerateTranscription (chunkRequest ''data:chunk_000.mp3'' [] [] None ''prompt''), Delay 2000,
         GenerateTranscription (chunkRequest ''data:chunk_000.mp3'' [] [] None ''prompt'')])"
proof -
  have rd: "readFile (flakyWorld n) [] ''chunk_000.mp3'' = Inr ''data:chunk_000.mp3''" for n
    by (simp add: flakyWorld_def quietWorld_def)
  note t2 = transcribeChunk_retry_bound [OF rd [of 2] refl refl refl,
      where chunkIndex = 0 and previousContext = "[]" and knownSpeakers = "[]"
        and customPrompt = None and template = "''prompt''"]
  note t5 = transcribeChunk_retry_bound [OF rd [of 5] refl refl refl,
      where chunkIndex = 0 and previousContext = "[]" and knownSpeakers = "[]"
        and customPrompt = None and template = "''prompt''"]
  have lt2: "j < 2 \<longleftrightarrow> j = 0 \<or> j = 1" for j :: nat by arith
  from t2 have a: "2 < (3::nat) \<longrightarrow> (\<forall>j<2. isl (attemptOutcome (flakyWorld 2) [ReadFile ''chunk_000.mp3''] (chunkRequest ''data:chunk_000.mp3'' [] [] None ''prompt'') j)) \<longrightarrow>
            attemptOutcome (flakyWorld 2) [ReadFile ''chunk_000.mp3''] (chunkRequest ''data:chunk_000.mp3'' [] [] None ''prompt'') 2 = Inr [hello] \<longrightarrow>
            transcribeChunk (flakyWorld 2) [] ''chunk_000.mp3'' 0 [] [] None ''prompt'' = (Inr [hello], attemptTrace [ReadFile ''chunk_000.mp3''] (chunkRequest ''data:chunk_000.mp3'' [] [] None ''prompt'') 2 @ [GenerateTranscription (chunkRequest ''data:chunk_000.mp3'' [] [] None ''prompt'')])"
    by simp
  from t5 have b: "(\<forall>j<2. isl (attemptOutcome (flakyWorld 5) [ReadFile ''chunk_000.mp3''] (chunkRequest ''data:chunk_000.mp3'' [] [] None ''prompt'') j)) \<longrightarrow>
            attemptOutcome (flakyWorld 5) [ReadFile ''chunk_000.mp3''] (chunkRequest ''data:chunk_000.mp3'' [] [] None ''prompt'') 2 = Inl (ExternalError ''xx'') \<longrightarrow>
            transcribeChunk (flakyWorld 5) [] ''chunk_000.mp3'' 0 [] [] None ''prompt'' = (Inl (ExternalError ''xx''), attemptTrace [ReadFile ''chunk_000.mp3''] (chunkRequest ''data:chunk_000.mp3'' [] [] None ''prompt'') 2 @ [GenerateTranscription (chunkRequest ''data:chunk_000.mp3'' [] [] None ''prompt'')])"
    by simp
  from a b show ?thesis
    by (simp add: flaky_outcome isDelay_def attemptTrace_def numeral_2_eq_2)
qed

subsection \<open>Merging onto the absolute timeline\<close>

lemma mergeChunks_concat:
  "mergeChunks seg rs acc =
     acc @ concat (map (\<lambda>c. map (rebase (real (index c) * seg)) (chunkTranscription c)) rs)"
  by (induction rs arbitrary: acc) simp_all

lemma transcribeLoop_results:
  "transcribeLoop w cp t paths i prev ks acc tr = (Inr rs, tr') \<Longrightarrow>
     \<exists>new. rs = acc @ new \<and> length new = length paths \<and> (\<forall>k < length new. index (new ! k) = i + k)"
proof (induction paths arbitrary: i prev ks acc tr)
  case Nil
  then show ?case by simp
next
  case (Cons p ps)
  from Cons.prems obtain chunk tr1 where
    rest: "transcribeLoop w cp t ps (Suc i)
             (contextOf 100 (concat (map chunkTranscription (acc @ [\<lparr>index = i, chunkTranscription = chunk\<rparr>]))))
             (updateKnownSpeakers ks (currentSpeakers chunk))
             (acc @ [\<lparr>index = i, chunkTranscription = chunk\<rparr>]) tr1 = (Inr rs, tr')"
    by (auto simp: Let_def split: prod.splits sum.splits)
  from Cons.IH [OF rest] obtain new where
    new: "rs = (acc @ [\<lparr>index = i, chunkTranscription = chunk\<rparr>]) @ new" "length new = length ps"
      "\<forall>k < length new. index (new ! k) = Suc i + k"
    by blast
  let ?new = "\<lparr>index = i, chunkTranscription = chunk\<rparr> # new"
  have "\<forall>k < length ?new. index (?new ! k) = i + k"
    using new(3) by (auto simp: nth_Cons split: nat.splits)
  with new(1,2) show ?case
    by (intro exI [of _ ?new]) simp
qed

lemma transcribeLoop_index:
  assumes "transcribeLoop w cp t paths 0 prev ks [] tr = (Inr rs, tr')"
  shows "length rs = length paths" and "i < length rs \<Longrightarrow> index (rs ! i) = i"
  using transcribeLoop_results [OF assms] by auto







lemma twoChunkWorld_run:
  "fst (transcribeLoop twoChunkWorld None ''prompt'' [''chunk_000.mp3'', ''chunk_001.mp3''] 0 [] [] [] [])
     = Inr twoChunks"
  by (simp add: twoChunkWorld_def quietWorld_def transcribeChunk_def chunkRequest_def
        numeral_3_eq_3 twoChunks_def)



subsection \<open>The known-speaker registry\<close>

lemma startsWith_prefix: "startsWith str s \<longleftrightarrow> prefix s str"
proof
  assume "startsWith str s"
  then have "str = s @ drop (length s) str"
    unfolding startsWith_def by (metis append_take_drop_id)
  then show "prefix s str" by (rule prefixI)
next
  assume "prefix s str"
  then obtain zs where "str = s @ zs" by (rule prefixE)
  then show "startsWith str s" by (simp add: startsWith_def)
qed

lemma pushSpeaker_prefix:
  "pushSpeaker ks s = (if \<exists>k\<in>set ks. prefix s k then ks else ks @ [s])"
  by (simp add: pushSpeaker_def list_ex_iff startsWith_prefix)

lemma foldl_setAdd: "set (foldl setAdd acc xs) = set acc \<union> set xs"
  by (induction xs arbitrary: acc) (auto simp: setAdd_def)

lemma foldl_setAdd_distinct: "distinct acc \<Longrightarrow> distinct (foldl setAdd acc xs)"
  by (induction xs arbitrary: acc) (auto simp: setAdd_def)

lemma currentSpeakers_set: "set (currentSpeakers chunk) = speaker ` set chunk"
  by (simp add: currentSpeakers_def uniqueValues_def foldl_setAdd)

lemma currentSpeakers_distinct: "distinct (currentSpeakers chunk)"
  by (simp add: currentSpeakers_def uniqueValues_def foldl_setAdd_distinct)

lemma updateKnownSpeakers_snoc:
  "updateKnownSpeakers ks (xs @ [x]) = pushSpeaker (updateKnownSpeakers ks xs) x"
  by (induction xs arbitrary: ks) simp_all

lemma updateKnownSpeakers_extends:
  "\<exists>new. updateKnownSpeakers ks cs = ks @ new \<and> set new \<subseteq> set cs"
proof (induction cs rule: rev_induct)
  case Nil
  then show ?case by simp
next
  case (snoc c cs)
  then obtain new where new: "updateKnownSpeakers ks cs = ks @ new" "set new \<subseteq> set cs"
    by blast
  show ?case
  proof (cases "\<exists>k\<in>set (ks @ new). prefix c k")
    case True
    with new show ?thesis
      by (intro exI [of _ new]) (auto simp: updateKnownSpeakers_snoc pushSpeaker_prefix)
  next
    case False
    with new show ?thesis
      by (intro exI [of _ "new @ [c]"]) (auto simp: updateKnownSpeakers_snoc pushSpeaker_prefix)
  qed
qed

lemma updateKnownSpeakers_covered_not_added:
  assumes "\<exists>k\<in>set ks. prefix s k"
  shows "s \<notin> set (drop (length ks) (updateKnownSpeakers ks cs))"
proof (induction cs rule: rev_induct)
  case Nil
  then show ?case by simp
next
  case (snoc c cs)
  obtain new where new: "updateKnownSpeakers ks cs = ks @ new"
    using updateKnownSpeakers_extends by blast
  with snoc have notin: "s \<notin> set new" by simp
  show ?case
  proof (cases "c = s")
    case True
    with assms new have "pushSpeaker (ks @ new) c = ks @ new"
      by (auto simp: pushSpeaker_prefix)
    with new notin show ?thesis by (simp add: updateKnownSpeakers_snoc)
  next
    case False
    with new notin show ?thesis
      by (simp add: updateKnownSpeakers_snoc pushSpeaker_prefix)
  qed
qed

lemma updateKnownSpeakers_fresh_added:
  assumes "s \<in> set cs" and "distinct cs"
    and "\<forall>k\<in>set ks. \<not> prefix s k" and "\<forall>t\<in>set cs. \<not> strict_prefix s t"
  shows "s \<in> set (drop (length ks) (updateKnownSpeakers ks cs))"
  using assms(1,2,4)
proof (induction cs rule: rev_induct)
  case Nil
  then show ?case by simp
next
  case (snoc c cs)
  obtain new where new: "updateKnownSpeakers ks cs = ks @ new" "set new \<subseteq> set cs"
    using updateKnownSpeakers_extends by blast
  show ?case
  proof (cases "c = s")
    case True
    have "\<not> prefix s k" if "k \<in> set new" for k
    proof -
      from that new(2) have "k \<in> set cs" by blast
      with snoc.prems(2) True have "k \<noteq> s" by auto
      moreover from \<open>k \<in> set cs\<close> snoc.prems(3) have "\<not> strict_prefix s k" by simp
      ultimately show ?thesis by (auto simp: strict_prefix_def)
    qed
    with assms(3) have "\<not> (\<exists>k\<in>set (ks @ new). prefix s k)" by auto
    with True new(1) show ?thesis
      by (simp add: updateKnownSpeakers_snoc pushSpeaker_prefix)
  next
    case False
    with snoc.prems have "s \<in> set cs" "distinct cs" "\<forall>t\<in>set cs. \<not> strict_prefix s t"
      by auto
    from snoc.IH [OF this] new(1) show ?thesis
      by (auto simp: updateKnownSpeakers_snoc pushSpeaker_prefix)
  qed
qed

lemma firstIndex_less: "x \<in> set xs \<Longrightarrow> firstIndex x xs < length xs"
  unfolding firstIndex_def by (induction xs) auto

lemma firstIndex_append_in: "x \<in> set xs \<Longrightarrow> firstIndex x (xs @ ys) = firstIndex x xs"
  unfolding firstIndex_def by (simp add: takeWhile_append1)

lemma firstIndex_append_notin: "x \<notin> set xs \<Longrightarrow> firstIndex x (xs @ [x]) = length xs"
  unfolding firstIndex_def by (induction xs) auto

lemma uniqueValues_snoc: "uniqueValues (xs @ [x]) = setAdd (uniqueValues xs) x"
  by (simp add: uniqueValues_def)

lemma uniqueValues_set: "set (uniqueValues xs) = set xs"
  by (simp add: uniqueValues_def foldl_setAdd)

lemma uniqueValues_first_occurrence:
  "m < n \<Longrightarrow> n < length (uniqueValues xs) \<Longrightarrow>
     firstIndex (uniqueValues xs ! m) xs < firstIndex (uniqueValues xs ! n) xs"
proof (induction xs arbitrary: m n rule: rev_induct)
  case Nil
  then show ?case by (simp add: uniqueValues_def)
next
  case (snoc x xs)
  let ?cs = "uniqueValues xs"
  have mem: "?cs ! k \<in> set xs" if "k < length ?cs" for k
    using that uniqueValues_set [of xs] nth_mem by blast
  show ?case
  proof (cases "x \<in> set xs")
    case True
    then have same: "uniqueValues (xs @ [x]) = ?cs"
      by (simp add: uniqueValues_snoc setAdd_def uniqueValues_set)
    with snoc.prems have n: "n < length ?cs" and m: "m < length ?cs" by simp_all
    from snoc.IH [OF snoc.prems(1) n] mem [OF m] mem [OF n] show ?thesis
      by (simp add: same firstIndex_append_in)
  next
    case False
    then have ext: "uniqueValues (xs @ [x]) = ?cs @ [x]"
      by (simp add: uniqueValues_snoc setAdd_def uniqueValues_set)
    with snoc.prems have n: "n \<le> length ?cs" and m: "m < length ?cs" by simp_all
    show ?thesis
    proof (cases "n < length ?cs")
      case True
      from snoc.IH [OF snoc.prems(1) True] mem [OF m] mem [OF True] m True show ?thesis
        by (simp add: ext nth_append firstIndex_append_in)
    next
      case last: False
      with n have n': "n = length ?cs" by simp
      have "firstIndex (?cs ! m) (xs @ [x]) = firstIndex (?cs ! m) xs"
        using mem [OF m] by (rule firstIndex_append_in)
      also have "\<dots> < length xs"
        using mem [OF m] by (rule firstIndex_less)
      also have "length xs = firstIndex x (xs @ [x])"
        using False by (simp add: firstIndex_append_notin)
      finally show ?thesis
        using m by (simp add: ext n' nth_append)
    qed
  qed
qed

lemma currentSpeakers_first_occurrence:
  "m < n \<Longrightarrow> n < length (currentSpeakers chunk) \<Longrightarrow>
     firstIndex (currentSpeakers chunk ! m) (map speaker chunk)
       < firstIndex (currentSpeakers chunk ! n) (map speaker chunk)"
  unfolding currentSpeakers_def by (rule uniqueValues_first_occurrence)

text \<open>
  C3, as amended. After a chunk, its distinct speaker codes \<open>cs\<close> are examined in order
  of first occurrence in the chunk's output (\<open>firstIndex\<close> is the position of a code's
  first occurrence), and the registry only grows at its end, by codes of the chunk. When
  code \<open>cs ! n\<close> is examined, it is appended if and only if it is a string-prefix of no
  entry of the registry as it then stands (\<open>before n\<close>: the registry before the chunk
  and the codes appended for this chunk so far); otherwise the registry is left as it is.
  So a code that is a prefix of an entry of the registry before the chunk is never added,
  and a code that is a prefix neither of such an entry nor of another code of the chunk
  is added.
\<close>

theorem registry_update_by_reverse_prefix:
  assumes cs: "cs = currentSpeakers chunk"
    and before: "before = (\<lambda>n. updateKnownSpeakers ks (take n cs))"
    and added: "added = drop (length ks) (updateKnownSpeakers ks cs)"
  shows "set cs = speaker ` set chunk \<and> distinct cs
       \<and> (\<forall>m n. m < n \<and> n < length cs \<longrightarrow>
             firstIndex (cs ! m) (map speaker chunk) < firstIndex (cs ! n) (map speaker chunk))
       \<and> before 0 = ks \<and> before (length cs) = updateKnownSpeakers ks cs
       \<and> updateKnownSpeakers ks cs = ks @ added \<and> set added \<subseteq> set cs
       \<and> (\<forall>n<length cs. before (Suc n) =
             (if \<exists>k\<in>set (before n). prefix (cs ! n) k then before n else before n @ [cs ! n]))
       \<and> (\<forall>s\<in>set cs. (\<exists>k\<in>set ks. prefix s k) \<longrightarrow> s \<notin> set added)
       \<and> (\<forall>s\<in>set cs. (\<forall>k\<in>set ks. \<not> prefix s k) \<and> (\<forall>t\<in>set cs. \<not> strict_prefix s t)
             \<longrightarrow> s \<in> set added)"
proof -
  have a: "set cs = speaker ` set chunk" and b: "distinct cs"
    by (simp_all add: cs currentSpeakers_set currentSpeakers_distinct)
  have order: "\<forall>m n. m < n \<and> n < length cs \<longrightarrow>
             firstIndex (cs ! m) (map speaker chunk) < firstIndex (cs ! n) (map speaker chunk)"
    unfolding cs using currentSpeakers_first_occurrence by blast
  have ends: "before 0 = ks" "before (length cs) = updateKnownSpeakers ks cs"
    by (simp_all add: before)
  obtain new where new: "updateKnownSpeakers ks cs = ks @ new" "set new \<subseteq> set cs"
    using updateKnownSpeakers_extends by blast
  then have c: "updateKnownSpeakers ks cs = ks @ added" and d: "set added \<subseteq> set cs"
    by (simp_all add: added)
  have e: "\<forall>n<length cs. before (Suc n) =
             (if \<exists>k\<in>set (before n). prefix (cs ! n) k then before n else before n @ [cs ! n])"
    by (simp add: before take_Suc_conv_app_nth updateKnownSpeakers_snoc pushSpeaker_prefix)
  have f: "\<forall>s\<in>set cs. (\<exists>k\<in>set ks. prefix s k) \<longrightarrow> s \<notin> set added"
    by (simp add: added updateKnownSpeakers_covered_not_added)
  have g: "\<forall>s\<in>set cs. (\<forall>k\<in>set ks. \<not> prefix s k) \<and> (\<forall>t\<in>set cs. \<not> strict_prefix s t)
             \<longrightarrow> s \<in> set added"
    using b by (simp add: added updateKnownSpeakers_fresh_added)
  show ?thesis
    by (intro conjI) (fact a b order ends c d e f g)+
qed

text \<open>
  C3 as stated fails in both directions. The registry entry made by speaker discovery is
  longer than the code \<^verbatim>\<open>SPEAKER_01\<close>, so no entry is a prefix of the code, yet the
  code is not added; and the entry \<^verbatim>\<open>SPEAKER_01\<close> is a prefix of the code
  \<^verbatim>\<open>SPEAKER_01_B\<close>, yet that code is added.
\<close>

theorem registry_prefix_counterexample:
  "currentSpeakers [hello] = [''SPEAKER_01'']
   \<and> \<not> prefix ''SPEAKER_01: low voice'' ''SPEAKER_01''
   \<and> updateKnownSpeakers [''SPEAKER_01: low voice''] (currentSpeakers [hello]) = [''SPEAKER_01: low voice'']
   \<and> currentSpeakers [hello\<lparr>speaker := ''SPEAKER_01_B''\<rparr>] = [''SPEAKER_01_B'']
   \<and> prefix ''SPEAKER_01'' ''SPEAKER_01_B''
   \<and> updateKnownSpeakers [''SPEAKER_01''] (currentSpeakers [hello\<lparr>speaker := ''SPEAKER_01_B''\<rparr>])
        = [''SPEAKER_01'', ''SPEAKER_01_B'']"
  by (simp add: currentSpeakers_def uniqueValues_def setAdd_def hello_def pushSpeaker_def startsWith_def)

theorem registry_update_by_reverse_prefix_witness:
  "''SPEAKER_01'' \<notin> set (updateKnownSpeakers [''SPEAKER_01: low voice''] (currentSpeakers [greeting, reply, hello]))
   \<and> ''SPEAKER_02'' \<in> set (updateKnownSpeakers [''SPEAKER_01: low voice''] (currentSpeakers [greeting, reply, hello]))
   \<and> take 1 (updateKnownSpeakers [''SPEAKER_01: low voice''] (currentSpeakers [greeting, reply, hello]))
        = [''SPEAKER_01: low voice'']
   \<and> firstIndex ''SPEAKER_01_B'' (map speaker [decorated, hello, decorated])
        < firstIndex ''SPEAKER_01'' (map speaker [decorated, hello, decorated])
   \<and> updateKnownSpeakers [] (currentSpeakers [decorated, hello, decorated]) = [''SPEAKER_01_B'']"
proof -
  define K where "K = [''SPEAKER_01: low voice'']"
  define U where "U = updateKnownSpeakers K [''SPEAKER_01'', ''SPEAKER_02'']"
  have cs: "currentSpeakers [greeting, reply, hello] = [''SPEAKER_01'', ''SPEAKER_02'']"
    by (simp add: currentSpeakers_def uniqueValues_def setAdd_def hello_def greeting_def reply_def)
  note t = registry_update_by_reverse_prefix [OF cs [symmetric] refl refl, of K, folded U_def]
  from t have ext: "U = K @ drop (length K) U"
    by blast
  from t have covered: "\<forall>s\<in>set [''SPEAKER_01'', ''SPEAKER_02''].
      (\<exists>k\<in>set K. prefix s k) \<longrightarrow> s \<notin> set (drop (length K) U)"
    by blast
  from t have fresh: "\<forall>s\<in>set [''SPEAKER_01'', ''SPEAKER_02''].
      (\<forall>k\<in>set K. \<not> prefix s k) \<and> (\<forall>t\<in>set [''SPEAKER_01'', ''SPEAKER_02'']. \<not> strict_prefix s t)
        \<longrightarrow> s \<in> set (drop (length K) U)"
    by blast
  from covered have out: "''SPEAKER_01'' \<notin> set (drop (length K) U)"
    by (simp add: K_def)
  from fresh have inn: "''SPEAKER_02'' \<in> set (drop (length K) U)"
    by (simp add: K_def)
  from out have one: "''SPEAKER_01'' \<notin> set U"
    by (subst ext) (simp add: K_def)
  from inn have two: "''SPEAKER_02'' \<in> set U"
    by (subst ext) simp
  have three: "take 1 U = [''SPEAKER_01: low voice'']"
    by (subst ext) (simp add: K_def)
  have cs2: "currentSpeakers [decorated, hello, decorated] = [''SPEAKER_01_B'', ''SPEAKER_01'']"
    by (simp add: currentSpeakers_def uniqueValues_def setAdd_def hello_def decorated_def)
  note u = registry_update_by_reverse_prefix [OF cs2 [symmetric] refl refl, of "[]"]
  from u have order: "\<forall>m n. m < n \<and> n < length [''SPEAKER_01_B'', ''SPEAKER_01''] \<longrightarrow>
             firstIndex ([''SPEAKER_01_B'', ''SPEAKER_01''] ! m) (map speaker [decorated, hello, decorated])
           < firstIndex ([''SPEAKER_01_B'', ''SPEAKER_01''] ! n) (map speaker [decorated, hello, decorated])"
    by blast
  from order [rule_format, of 0 1]
  have four: "firstIndex ''SPEAKER_01_B'' (map speaker [decorated, hello, decorated])
        < firstIndex ''SPEAKER_01'' (map speaker [decorated, hello, decorated])"
    by simp
  from u have steps: "\<forall>n<length [''SPEAKER_01_B'', ''SPEAKER_01''].
      updateKnownSpeakers [] (take (Suc n) [''SPEAKER_01_B'', ''SPEAKER_01'']) =
        (if \<exists>k\<in>set (updateKnownSpeakers [] (take n [''SPEAKER_01_B'', ''SPEAKER_01''])).
              prefix ([''SPEAKER_01_B'', ''SPEAKER_01''] ! n) k
         then updateKnownSpeakers [] (take n [''SPEAKER_01_B'', ''SPEAKER_01''])
         else updateKnownSpeakers [] (take n [''SPEAKER_01_B'', ''SPEAKER_01'']) @ [[''SPEAKER_01_B'', ''SPEAKER_01''] ! n])"
    by blast
  from steps [rule_format, of 0]
  have s1: "updateKnownSpeakers [] [''SPEAKER_01_B''] = [''SPEAKER_01_B'']"
    by simp
  from steps [rule_format, of 1] s1
  have five: "updateKnownSpeakers [] [''SPEAKER_01_B'', ''SPEAKER_01''] = [''SPEAKER_01_B'']"
    by simp
  from one two three four five show ?thesis
    by (simp add: cs cs2 U_def K_def)
qed

subsection \<open>Applying the speaker mapping\<close>

lemma getProperty_own: "mapping code = Some name \<Longrightarrow> getProperty mapping code = Str name"
  by (simp add: getProperty_def)

lemma getProperty_absent:
  "mapping code = None \<Longrightarrow> code \<notin> set inheritedNames \<Longrightarrow> getProperty mapping code = Undefined"
  by (simp add: getProperty_def)

lemma orElse_simps:
  "orElse Undefined d = d"
  "orElse (Str s) d = (if s = [] then d else s)"
  by (simp_all add: orElse_def)

lemma applyMapping_length: "length (applyMapping m ts) = length ts"
  by (simp add: applyMapping_def)

lemma applyMapping_nth:
  "i < length ts \<Longrightarrow>
     applyMapping m ts ! i
       = (ts ! i)\<lparr>speaker := orElse (getProperty m (speaker (ts ! i))) (speaker (ts ! i))\<rparr>"
  by (simp add: applyMapping_def)

lemma applyMapping_times:
  "map startTime (applyMapping m ts) = map startTime ts"
  "map endTime (applyMapping m ts) = map endTime ts"
  "map text (applyMapping m ts) = map text ts"
  by (simp_all add: applyMapping_def comp_def)

lemma identifySpeakersWithAudio_result:
  assumes "identifySpeakersWithAudio w tr acc path dir = (Inr res, tr')"
  shows "\<exists>st. resolveWindows w tr (transcription acc) path dir = (Inr st, tr')
            \<and> res = acc\<lparr>transcription := applyMapping (globalMapping st) (transcription acc)\<rparr>"
  using assms by (auto simp: identifySpeakersWithAudio_def split: prod.splits sum.splits)

lemma normalizeSpeakers_result:
  assumes "normalizeSpeakers w tr acc = (Inr res, tr')"
  shows "\<exists>m. generateNormalization w tr (transcription acc) = Inr m
            \<and> res = acc\<lparr>transcription := applyMapping m (transcription acc)\<rparr>"
  using assms by (auto simp: normalizeSpeakers_def split: sum.splits)

text \<open>
  C4, as amended. Applying a mapping computes, for every item,
  \<^verbatim>\<open>mapping[item.speaker] || item.speaker\<close>: the speaker becomes the mapped name when
  the code is a key of the mapping whose name is not the empty string; it stays as it is
  when the code is mapped to the empty string, and when the code is absent from the
  mapping and is not the name of a member a plain object inherits (\<open>inheritedNames\<close>).
  Nothing is said of an absent code that is such a name. Both resolution functions, when
  they return, return the transcript with the final mapping applied in this way.
\<close>

theorem mapping_applied_with_fallback:
  "(\<forall>i<length ts.
       (\<forall>name. mapping (speaker (ts ! i)) = Some name \<and> name \<noteq> []
          \<longrightarrow> speaker (applyMapping mapping ts ! i) = name)
     \<and> (mapping (speaker (ts ! i)) = Some []
          \<longrightarrow> speaker (applyMapping mapping ts ! i) = speaker (ts ! i))
     \<and> (mapping (speaker (ts ! i)) = None \<and> speaker (ts ! i) \<notin> set inheritedNames
          \<longrightarrow> speaker (applyMapping mapping ts ! i) = speaker (ts ! i)))
   \<and> (identifySpeakersWithAudio w tr acc path dir = (Inr res, tr') \<longrightarrow>
        (\<exists>st. resolveWindows w tr (transcription acc) path dir = (Inr st, tr')
            \<and> transcription res = applyMapping (globalMapping st) (transcription acc)))
   \<and> (normalizeSpeakers w tr acc = (Inr res, tr') \<longrightarrow>
        (\<exists>m. generateNormalization w tr (transcription acc) = Inr m
            \<and> transcription res = applyMapping m (transcription acc)))"
proof (intro conjI impI allI)
  fix i name
  assume "i < length ts" and "mapping (speaker (ts ! i)) = Some name \<and> name \<noteq> []"
  then show "speaker (applyMapping mapping ts ! i) = name"
    by (simp add: applyMapping_nth getProperty_own orElse_simps)
next
  fix i
  assume "i < length ts" and "mapping (speaker (ts ! i)) = Some []"
  then show "speaker (applyMapping mapping ts ! i) = speaker (ts ! i)"
    by (simp add: applyMapping_nth getProperty_own orElse_simps)
next
  fix i
  assume "i < length ts"
    and "mapping (speaker (ts ! i)) = None \<and> speaker (ts ! i) \<notin> set inheritedNames"
  then show "speaker (applyMapping mapping ts ! i) = speaker (ts ! i)"
    by (simp add: applyMapping_nth getProperty_absent orElse_simps)
next
  assume "identifySpeakersWithAudio w tr acc path dir = (Inr res, tr')"
  from identifySpeakersWithAudio_result [OF this]
  show "\<exists>st. resolveWindows w tr (transcription acc) path dir = (Inr st, tr')
            \<and> transcription res = applyMapping (globalMapping st) (transcription acc)"
    by auto
next
  assume "normalizeSpeakers w tr acc = (Inr res, tr')"
  from normalizeSpeakers_result [OF this]
  show "\<exists>m. generateNormalization w tr (transcription acc) = Inr m
            \<and> transcription res = applyMapping m (transcription acc)"
    by auto
qed

text \<open>
  C4 as stated fails for a key mapped to the empty string: the speaker does not become
  the empty string but keeps its code.
\<close>

theorem mapping_empty_name_counterexample:
  "blankName ''SPEAKER_01'' = Some ''''
   \<and> fst (normalizeSpeakers blankNameWorld [] (emptyResults\<lparr>transcription := [hello]\<rparr>))
       = Inr (emptyResults\<lparr>transcription := [hello]\<rparr>)
   \<and> map speaker (applyMapping blankName [hello]) = [''SPEAKER_01'']"
  by (simp add: blankName_def blankNameWorld_def quietWorld_def normalizeSpeakers_def
        applyMapping_def getProperty_def orElse_simps hello_def emptyResults_def)

theorem mapping_applied_with_fallback_witness:
  "speaker (applyMapping aliceBob merged3 ! 2) = ''Alice''
   \<and> speaker (applyMapping blankName merged3 ! 1) = ''SPEAKER_02''
   \<and> speaker (applyMapping blankName merged3 ! 0) = ''SPEAKER_01''"
proof -
  have len: "0 < length merged3" "1 < length merged3" "2 < length merged3"
    by (simp_all add: merged3_def)
  note a = mapping_applied_with_fallback [of merged3 aliceBob, THEN conjunct1, rule_format, OF len(3),
      THEN conjunct1, rule_format, of "''Alice''"]
  note b = mapping_applied_with_fallback [of merged3 blankName, THEN conjunct1, rule_format, OF len(2),
      THEN conjunct2, THEN conjunct2, rule_format]
  note c = mapping_applied_with_fallback [of merged3 blankName, THEN conjunct1, rule_format, OF len(1),
      THEN conjunct2, THEN conjunct1, rule_format]
  have ka: "aliceBob (speaker (merged3 ! 2)) = Some ''Alice'' \<and> ''Alice'' \<noteq> []"
    by (simp add: merged3_def aliceBob_def hello_def rebase_def)
  have kb: "blankName (speaker (merged3 ! 1)) = None \<and> speaker (merged3 ! 1) \<notin> set inheritedNames"
    by (simp add: merged3_def blankName_def reply_def inheritedNames_def)
  have kc: "blankName (speaker (merged3 ! 0)) = Some []"
    by (simp add: merged3_def blankName_def greeting_def)
  from a [OF ka] b [OF kb] c [OF kc] show ?thesis
    by (simp add: merged3_def greeting_def reply_def)
qed

text \<open>
  C8. Applying any mapping to any transcript keeps its length and order and each item's
  start time, end time and text; when every code of the transcript maps to itself the
  transcript is returned unchanged. Both resolution functions, when they return, return
  such a transcript, with title, slug and summary as they were.
\<close>

theorem resolution_rewrites_speaker_only:
  "(length (applyMapping mapping ts) = length ts
      \<and> (\<forall>i<length ts. startTime (applyMapping mapping ts ! i) = startTime (ts ! i)
            \<and> endTime (applyMapping mapping ts ! i) = endTime (ts ! i)
            \<and> text (applyMapping mapping ts ! i) = text (ts ! i))
      \<and> ((\<forall>item\<in>set ts. mapping (speaker item) = Some (speaker item)) \<longrightarrow> applyMapping mapping ts = ts))
   \<and> (identifySpeakersWithAudio w tr acc path dir = (Inr res, tr')
        \<or> normalizeSpeakers w tr acc = (Inr res, tr') \<longrightarrow>
        (\<exists>m. transcription res = applyMapping m (transcription acc))
        \<and> title res = title acc \<and> slug res = slug acc \<and> summary res = summary acc)"
proof -
  have frame: "\<forall>i<length ts. startTime (applyMapping mapping ts ! i) = startTime (ts ! i)
            \<and> endTime (applyMapping mapping ts ! i) = endTime (ts ! i)
            \<and> text (applyMapping mapping ts ! i) = text (ts ! i)"
    by (simp add: applyMapping_nth)
  have ident: "applyMapping mapping ts = ts"
    if "\<forall>item\<in>set ts. mapping (speaker item) = Some (speaker item)"
    unfolding applyMapping_def
  proof (rule map_idI)
    fix item assume "item \<in> set ts"
    with that have "mapping (speaker item) = Some (speaker item)" by blast
    then show "item\<lparr>speaker := orElse (getProperty mapping (speaker item)) (speaker item)\<rparr> = item"
      by (simp add: getProperty_own orElse_simps)
  qed
  have audio: "(\<exists>m. transcription res = applyMapping m (transcription acc))
        \<and> title res = title acc \<and> slug res = slug acc \<and> summary res = summary acc"
    if "identifySpeakersWithAudio w tr acc path dir = (Inr res, tr')"
    using identifySpeakersWithAudio_result [OF that] by auto
  have textual: "(\<exists>m. transcription res = applyMapping m (transcription acc))
        \<and> title res = title acc \<and> slug res = slug acc \<and> summary res = summary acc"
    if "normalizeSpeakers w tr acc = (Inr res, tr')"
    using normalizeSpeakers_result [OF that] by auto
  from frame ident audio textual show ?thesis
    by (simp only: applyMapping_length) blast
qed

theorem resolution_rewrites_speaker_only_witness:
  "fst (normalizeSpeakers selfMappingWorld [] (emptyResults\<lparr>transcription := merged3\<rparr>))
     = Inr (emptyResults\<lparr>transcription := merged3\<rparr>)"
proof -
  have self: "\<forall>item\<in>set merged3. selfMapping (speaker item) = Some (speaker item)"
    by (simp add: merged3_def selfMapping_def greeting_def reply_def hello_def rebase_def)
  from resolution_rewrites_speaker_only [of selfMapping merged3] self
  have "applyMapping selfMapping merged3 = merged3"
    by blast
  then show ?thesis
    by (simp add: normalizeSpeakers_def selfMappingWorld_def quietWorld_def emptyResults_def)
qed

subsection \<open>Incremental resolution over time windows\<close>

lemma quietWorld_simps:
  "readFile quietWorld tr p = Inr (''data:'' @ p)"
  "mkdir quietWorld tr p = None"
  "rm quietWorld tr p = None"
  "ffmpegExtract quietWorld tr p s d out = None"
  "generateMapping quietWorld tr mreq = Inr []"
  "generateTranscription quietWorld tr req = Inr []"
  "generateSummary quietWorld tr ts = Inr ([], [], [])"
  "generateNormalization quietWorld tr ts = Inr Map.empty"
  "writeFile quietWorld tr p = None"
  "pathJoin quietWorld a b = a @ ''/'' @ b"
  "dirname quietWorld p = ''.''"
  "sampleName quietWorld c k = ''sample_'' @ c @ ''_chunk'' @ replicate k (CHR ''I'') @ ''.mp3''"
  by (simp_all add: quietWorld_def)

lemmas window_eval = Let_def identifyWindow_def chunkItems_def unknownSpeakers_def uniqueValues_def
  setAdd_def truthy_def getProperty_def setProperty_def inheritedNames_def bestItem_def extractAudioSegment_def mapHas_def identificationChunkTime_def
  initialState_def quietWorld_simps greeting_def reply_def hello_def rebase_def

lemma mapSet_fresh: "\<not> mapHas m k \<Longrightarrow> mapSet m k v = m @ [(k, v)]"
  by (induction m) (auto simp: mapHas_def)

lemma updateMapping_prefix:
  "prefix (confirmedSpeakers st) (confirmedSpeakers (updateMapping entries newSamples st))"
proof (induction entries arbitrary: st)
  case Nil
  then show ?case by simp
next
  case (Cons entry rest)
  obtain original mapped where entry: "entry = (original, mapped)"
    by (cases entry)
  let ?st1 = "\<lparr>globalMapping = setProperty (globalMapping st) original mapped,
        confirmedSpeakers =
          (if \<not> mapHas (confirmedSpeakers st) mapped then
             (case find (\<lambda>s. sampleSpeaker s = original) newSamples of
                Some smp \<Rightarrow>
                  mapSet (confirmedSpeakers st) mapped \<lparr>infoPath = samplePath smp, infoText = sampleText smp\<rparr>
              | None \<Rightarrow> confirmedSpeakers st)
           else confirmedSpeakers st)\<rparr>"
  have "prefix (confirmedSpeakers st) (confirmedSpeakers ?st1)"
    by (simp add: mapSet_fresh split: option.splits)
  moreover have "prefix (confirmedSpeakers ?st1) (confirmedSpeakers (updateMapping rest newSamples ?st1))"
    by (rule Cons.IH)
  ultimately show ?case
    unfolding entry updateMapping.simps by (rule prefix_order.trans)
qed

lemma identifyWindow_prefix:
  assumes "identifyWindow w ts path dir n chunkIdx st tr = (Inr st', tr')"
  shows "prefix (confirmedSpeakers st) (confirmedSpeakers st')"
  using assms
  by (auto simp: identifyWindow_def Let_def updateMapping_prefix
        split: if_splits prod.splits sum.splits)

lemma identifyWindows_append:
  "identifyWindows w ts path dir n (earlier @ later) st tr =
     (case identifyWindows w ts path dir n earlier st tr of
        (Inl e, tr1) \<Rightarrow> (Inl e, tr1)
      | (Inr mid, tr1) \<Rightarrow> identifyWindows w ts path dir n later mid tr1)"
  by (induction earlier arbitrary: st tr) (auto split: prod.splits sum.splits)

lemma identifyWindows_Cons_Inr:
  assumes "identifyWindows w ts path dir n (chunkIdx # rest) st tr = (Inr st', tr')"
  obtains st1 tr1 where "identifyWindow w ts path dir n chunkIdx st tr = (Inr st1, tr1)"
    and "identifyWindows w ts path dir n rest st1 tr1 = (Inr st', tr')"
proof (cases "identifyWindow w ts path dir n chunkIdx st tr")
  case (Pair r tr1)
  show ?thesis
  proof (cases r)
    case (Inl e)
    with Pair assms show ?thesis by simp
  next
    case (Inr st1)
    with Pair assms that show ?thesis by simp
  qed
qed

lemma identifyWindows_prefix:
  assumes "identifyWindows w ts path dir n idxs st tr = (Inr st', tr')"
  shows "prefix (confirmedSpeakers st) (confirmedSpeakers st')"
  using assms
proof (induction idxs arbitrary: st tr)
  case Nil
  then show ?case by simp
next
  case (Cons chunkIdx rest)
  from Cons.prems obtain st1 tr1 where
    step: "identifyWindow w ts path dir n chunkIdx st tr = (Inr st1, tr1)"
    and later: "identifyWindows w ts path dir n rest st1 tr1 = (Inr st', tr')"
    by (rule identifyWindows_Cons_Inr)
  from identifyWindow_prefix [OF step] Cons.IH [OF later] show ?case
    by (rule prefix_order.trans)
qed

lemma identifyWindows_append_Inr:
  assumes "identifyWindows w ts path dir n (earlier @ later) st tr = (Inr final, tr')"
  obtains mid trm where "identifyWindows w ts path dir n earlier st tr = (Inr mid, trm)"
    and "identifyWindows w ts path dir n later mid trm = (Inr final, tr')"
proof (cases "identifyWindows w ts path dir n earlier st tr")
  case (Pair r trm)
  show ?thesis
  proof (cases r)
    case (Inl e)
    with Pair assms show ?thesis by (simp add: identifyWindows_append)
  next
    case (Inr mid)
    with Pair assms that show ?thesis by (simp add: identifyWindows_append)
  qed
qed

lemma prefix_map_of:
  assumes "prefix xs ys" and "map_of xs k = Some v"
  shows "map_of ys k = Some v"
proof -
  from assms(1) obtain zs where "ys = xs @ zs" by (rule prefixE)
  with assms(2) show ?thesis by (simp add: map_add_Some_iff)
qed

text \<open>
  C5. Split the windows of a run that returns into the earlier and the later ones. The
  table of confirmed samples after the earlier windows is an initial segment of the table
  at the end: every canonical name with a sample keeps it, with the same audio path and
  reference text, and the set of canonical names only grows. With all windows counted as
  later ones, the same holds from the empty table at the start.
\<close>

theorem confirmed_samples_first_writer_wins:
  assumes run: "identifyWindows w ts path dir n (earlier @ later) st tr = (Inr final, tr')"
  shows "\<exists>mid trm.
           identifyWindows w ts path dir n earlier st tr = (Inr mid, trm)
         \<and> identifyWindows w ts path dir n later mid trm = (Inr final, tr')
         \<and> prefix (confirmedSpeakers mid) (confirmedSpeakers final)
         \<and> (\<forall>name info. map_of (confirmedSpeakers mid) name = Some info
               \<longrightarrow> map_of (confirmedSpeakers final) name = Some info)
         \<and> fst ` set (confirmedSpeakers mid) \<subseteq> fst ` set (confirmedSpeakers final)"
proof -
  from run obtain mid trm where
    first: "identifyWindows w ts path dir n earlier st tr = (Inr mid, trm)"
    and rest: "identifyWindows w ts path dir n later mid trm = (Inr final, tr')"
    by (rule identifyWindows_append_Inr)
  have pre: "prefix (confirmedSpeakers mid) (confirmedSpeakers final)"
    using identifyWindows_prefix [OF rest] .
  have keep: "\<forall>name info. map_of (confirmedSpeakers mid) name = Some info
               \<longrightarrow> map_of (confirmedSpeakers final) name = Some info"
  proof (intro allI impI)
    fix name info
    assume "map_of (confirmedSpeakers mid) name = Some info"
    with pre show "map_of (confirmedSpeakers final) name = Some info"
      by (rule prefix_map_of)
  qed
  from pre have "set (confirmedSpeakers mid) \<subseteq> set (confirmedSpeakers final)"
    by (rule set_mono_prefix)
  then have names: "fst ` set (confirmedSpeakers mid) \<subseteq> fst ` set (confirmedSpeakers final)"
    by (rule image_mono)
  show ?thesis
    by (intro exI [of _ mid] exI [of _ trm] conjI) (fact first rest pre keep names)+
qed

theorem confirmed_samples_first_writer_wins_witness:
  "\<exists>final tr'. identifyWindows mergingWorld merging ''a.mp3'' ''tmp/samples'' 3 [0, 1, 2] initialState []
       = (Inr final, tr')
     \<and> globalMapping final ''SPEAKER_03'' = Some ''Alice''
     \<and> map_of (confirmedSpeakers final) ''Alice'' = Some aliceSample"
proof -
  have full: "\<exists>final tr'. identifyWindows mergingWorld merging ''a.mp3'' ''tmp/samples'' 3 ([0] @ [1, 2]) initialState []
       = (Inr final, tr') \<and> globalMapping final ''SPEAKER_03'' = Some ''Alice''"
    by (simp add: window_eval mergingWorld_def merging_def)
  then obtain final tr' where
    run: "identifyWindows mergingWorld merging ''a.mp3'' ''tmp/samples'' 3 ([0] @ [1, 2]) initialState []
       = (Inr final, tr')"
    and s3: "globalMapping final ''SPEAKER_03'' = Some ''Alice''"
    by blast
  from confirmed_samples_first_writer_wins [OF run] obtain mid trm where
    first: "identifyWindows mergingWorld merging ''a.mp3'' ''tmp/samples'' 3 [0] initialState [] = (Inr mid, trm)"
    and keep: "\<forall>name info. map_of (confirmedSpeakers mid) name = Some info
               \<longrightarrow> map_of (confirmedSpeakers final) name = Some info"
    by blast
  have "map_of (confirmedSpeakers (projr (fst (identifyWindows mergingWorld merging ''a.mp3'' ''tmp/samples'' 3 [0] initialState []))))
          ''Alice'' = Some aliceSample"
    by (simp add: window_eval mergingWorld_def merging_def aliceSample_def)
  with first have "map_of (confirmedSpeakers mid) ''Alice'' = Some aliceSample"
    by simp
  with keep have "map_of (confirmedSpeakers final) ''Alice'' = Some aliceSample"
    by blast
  with run s3 show ?thesis
    by auto
qed

lemma unknownSpeakers_none:
  assumes "\<forall>item\<in>set items. truthy (getProperty mapping (speaker item))"
  shows "unknownSpeakers mapping items = []"
proof -
  have "\<forall>s\<in>set (uniqueValues (map speaker items)). truthy (getProperty mapping s)"
    using assms by (auto simp: uniqueValues_def foldl_setAdd)
  then show ?thesis
    by (simp add: unknownSpeakers_def filter_empty_conv)
qed

lemma truthy_own:
  "mapping code = Some name \<Longrightarrow> name \<noteq> [] \<Longrightarrow> truthy (getProperty mapping code)"
  by (simp add: getProperty_def truthy_def)

text \<open>
  C6, as amended. A window in which every occurring speaker code is mapped to a name
  that is not the empty string is skipped: the iteration returns the state (global
  mapping and confirmed samples) and the history of events as they were, so neither an
  extraction nor a resolver call is issued for it.
\<close>

theorem window_without_unknown_codes_skipped:
  assumes "\<forall>item\<in>set (chunkItems ts chunkIdx).
             \<exists>name. globalMapping st (speaker item) = Some name \<and> name \<noteq> []"
  shows "identifyWindow w ts path dir n chunkIdx st tr = (Inr st, tr)"
proof -
  from assms
  have "\<forall>item\<in>set (chunkItems ts chunkIdx). truthy (getProperty (globalMapping st) (speaker item))"
    using truthy_own by blast
  then have "unknownSpeakers (globalMapping st) (chunkItems ts chunkIdx) = []"
    by (rule unknownSpeakers_none)
  then show ?thesis
    by (simp add: identifyWindow_def Let_def)
qed

text \<open>
  C6 as stated fails when a code is a key of the global mapping with the empty string as
  its name. The first window maps \<^verbatim>\<open>SPEAKER_01\<close> to the empty string; in the second
  window that code is the only one and is a key of the mapping, yet a sample is extracted
  and the resolver is called again.
\<close>

theorem window_with_blank_name_counterexample:
  "fst (identifyWindows blankNameWorld twice ''a.mp3'' ''tmp/samples'' 2 [0] initialState []) = Inr blankState
   \<and> map speaker (chunkItems twice 1) = [''SPEAKER_01'']
   \<and> globalMapping blankState ''SPEAKER_01'' = Some []
   \<and> snd (identifyWindow blankNameWorld twice ''a.mp3'' ''tmp/samples'' 2 1 blankState [])
       = [ExtractAudio ''a.mp3'' (299.8) (40.4) ''tmp/samples/sample_SPEAKER_01_chunkI.mp3'',
          ReadFile ''tmp/samples/sample_SPEAKER_01_chunk.mp3'',
          ReadFile ''tmp/samples/sample_SPEAKER_01_chunkI.mp3'',
          GenerateMapping
            \<lparr>windowIdx = 1, windowCount = 2,
             references = [([], ''hello'', ''data:tmp/samples/sample_SPEAKER_01_chunk.mp3'')],
             candidates = [(''SPEAKER_01'', ''hello'', ''data:tmp/samples/sample_SPEAKER_01_chunkI.mp3'')]\<rparr>]"
  by (simp add: window_eval blankNameWorld_def twice_def blankState_def blankName_def blankSample_def)

theorem window_without_unknown_codes_skipped_witness:
  "identifyWindow mergingWorld merged3 ''a.mp3'' ''tmp/samples'' 3 2 aliceBobState
     [Mkdir ''tmp/samples''] = (Inr aliceBobState, [Mkdir ''tmp/samples''])
   \<and> map speaker (chunkItems merged3 2) = [''SPEAKER_01'']"
proof -
  have known: "\<forall>item\<in>set (chunkItems merged3 2).
             \<exists>name. globalMapping aliceBobState (speaker item) = Some name \<and> name \<noteq> []"
    by (simp add: chunkItems_def merged3_def identificationChunkTime_def greeting_def reply_def
          hello_def rebase_def aliceBobState_def aliceBob_def)
  have "map speaker (chunkItems merged3 2) = [''SPEAKER_01'']"
    by (simp add: chunkItems_def merged3_def identificationChunkTime_def greeting_def reply_def
          hello_def rebase_def)
  with window_without_unknown_codes_skipped [OF known] show ?thesis
    by simp
qed

lemma maxTime_Nil: "maxTime [] = 0"
  by (simp add: maxTime_def)

lemma numChunks_Nil: "numChunks [] = 0"
  by (simp add: numChunks_def maxTime_Nil)

lemma resolveWindows_Nil:
  "resolveWindows w tr [] path dir =
     ((case mkdir w tr (pathJoin w dir ''samples'') of None \<Rightarrow> Inr initialState | Some e \<Rightarrow> Inl e),
      tr @ [Mkdir (pathJoin w dir ''samples'')])"
  by (simp add: resolveWindows_def numChunks_Nil Let_def split: option.splits)

text \<open>
  C10. On an empty transcription the maximum end time is 0 and there are no windows. The
  only event of \<^verbatim>\<open>identifySpeakersWithAudio\<close> is the making of the samples directory:
  no extraction, no read and no resolver call. The loop ends in the initial state, with
  the empty global mapping, and the function returns its input; only a failure to make
  the directory is passed on instead.
\<close>

theorem identify_on_empty_transcription:
  assumes "transcription acc = []"
  shows "maxTime (transcription acc) = 0 \<and> numChunks (transcription acc) = 0
       \<and> resolveWindows w tr (transcription acc) path dir =
           ((case mkdir w tr (pathJoin w dir ''samples'') of
               None \<Rightarrow> Inr initialState | Some e \<Rightarrow> Inl e),
            tr @ [Mkdir (pathJoin w dir ''samples'')])
       \<and> globalMapping initialState = Map.empty
       \<and> identifySpeakersWithAudio w tr acc path dir =
           ((case mkdir w tr (pathJoin w dir ''samples'') of None \<Rightarrow> Inr acc | Some e \<Rightarrow> Inl e),
            tr @ [Mkdir (pathJoin w dir ''samples'')])"
proof -
  have "acc\<lparr>transcription := applyMapping m []\<rparr> = acc" for m
    using assms by (simp add: applyMapping_def)
  then have "identifySpeakersWithAudio w tr acc path dir =
           ((case mkdir w tr (pathJoin w dir ''samples'') of None \<Rightarrow> Inr acc | Some e \<Rightarrow> Inl e),
            tr @ [Mkdir (pathJoin w dir ''samples'')])"
    by (simp add: identifySpeakersWithAudio_def assms resolveWindows_Nil split: option.splits)
  then show ?thesis
    by (simp add: assms maxTime_Nil numChunks_Nil resolveWindows_Nil initialState_def)
qed

theorem identify_on_empty_transcription_witness:
  "identifySpeakersWithAudio quietWorld [] emptyResults ''a.mp3'' ''tmp''
     = (Inr emptyResults, [Mkdir ''tmp/samples''])"
proof -
  have "transcription emptyResults = []"
    by (simp add: emptyResults_def)
  from identify_on_empty_transcription [OF this, of quietWorld "[]" "''a.mp3''" "''tmp''"]
  show ?thesis
    by (simp add: quietWorld_simps)
qed

subsection \<open>Order of the merged transcript\<close>

lemma sorted_shift:
  fixes xs :: "real list"
  shows "sorted xs \<Longrightarrow> sorted (map (\<lambda>x. x + c) xs)"
  by (induction xs) auto

lemma startTime_rebase: "map startTime (map (rebase off) items) = map (\<lambda>x. x + off) (map startTime items)"
  by (simp add: rebase_def comp_def)

lemma sorted_blocks:
  assumes "\<forall>k<length rs. index (rs ! k) = i + k"
    and "\<forall>c\<in>set rs. sorted (map startTime (chunkTranscription c))
           \<and> (\<forall>it\<in>set (chunkTranscription c). 0 \<le> startTime it \<and> startTime it < seg)"
  shows "sorted (map startTime (concat (map (\<lambda>c. map (rebase (real (index c) * seg)) (chunkTranscription c)) rs)))
       \<and> (\<forall>x\<in>set (map startTime (concat (map (\<lambda>c. map (rebase (real (index c) * seg)) (chunkTranscription c)) rs))).
             real i * seg \<le> x)"
  using assms
proof (induction rs arbitrary: i)
  case Nil
  then show ?case by simp
next
  case (Cons c rs)
  let ?shift = "\<lambda>c. map (rebase (real (index c) * seg)) (chunkTranscription c)"
  let ?rest = "map startTime (concat (map ?shift rs))"
  let ?block = "map startTime (?shift c)"
  from Cons.prems(1) have idx: "index c = i" by fastforce
  have later: "\<forall>k<length rs. index (rs ! k) = Suc i + k"
  proof (intro allI impI)
    fix k assume "k < length rs"
    then have "Suc k < length (c # rs)" by simp
    with Cons.prems(1) have "index ((c # rs) ! Suc k) = i + Suc k" by blast
    then show "index (rs ! k) = Suc i + k" by simp
  qed
  from Cons.prems(2) have chunks: "\<forall>c\<in>set rs. sorted (map startTime (chunkTranscription c))
           \<and> (\<forall>it\<in>set (chunkTranscription c). 0 \<le> startTime it \<and> startTime it < seg)"
    by simp
  from Cons.IH [OF later chunks]
  have rest_sorted: "sorted ?rest" and rest_low: "\<forall>x\<in>set ?rest. real (Suc i) * seg \<le> x"
    by blast+
  from Cons.prems(2) have c_sorted: "sorted (map startTime (chunkTranscription c))"
    and c_range: "\<forall>it\<in>set (chunkTranscription c). 0 \<le> startTime it \<and> startTime it < seg"
    by simp_all
  have block_sorted: "sorted ?block"
    unfolding startTime_rebase using c_sorted by (rule sorted_shift)
  have block_range: "real i * seg \<le> x \<and> x < real (Suc i) * seg" if "x \<in> set ?block" for x
  proof -
    from that obtain it where it: "it \<in> set (chunkTranscription c)"
      and x: "x = startTime it + real i * seg"
      by (auto simp: rebase_def idx)
    from c_range it have "0 \<le> startTime it" "startTime it < seg" by blast+
    then show ?thesis by (simp add: x algebra_simps)
  qed
  have cross: "\<forall>x\<in>set ?block. \<forall>y\<in>set ?rest. x \<le> y"
  proof (intro ballI)
    fix x y assume "x \<in> set ?block" "y \<in> set ?rest"
    with block_range rest_low have "x < real (Suc i) * seg" "real (Suc i) * seg \<le> y"
      by blast+
    then show "x \<le> y" by simp
  qed
  have low: "real i * seg \<le> y" if "y \<in> set ?rest" for y
  proof -
    from that obtain c' it where c': "c' \<in> set rs" and it: "it \<in> set (chunkTranscription c')"
      by auto
    with chunks have "0 \<le> startTime it" "startTime it < seg" by blast+
    then have "0 \<le> seg" by simp
    then have "real i * seg \<le> real (Suc i) * seg" by (simp add: algebra_simps)
    with rest_low that show ?thesis by fastforce
  qed
  have "map startTime (concat (map ?shift (c # rs))) = ?block @ ?rest"
    by simp
  moreover have "sorted (?block @ ?rest)"
    using block_sorted rest_sorted cross by (simp only: sorted_append)
  moreover have "\<forall>x\<in>set (?block @ ?rest). real i * seg \<le> x"
  proof (intro ballI)
    fix x assume "x \<in> set (?block @ ?rest)"
    then have "x \<in> set ?block \<or> x \<in> set ?rest"
      by (simp only: set_append Un_iff)
    with block_range low show "real i * seg \<le> x" by blast
  qed
  ultimately show ?case by presburger
qed

text \<open>
  C9. When every chunk lists its items by ascending start time within
  \<open>[0, seg)\<close>, the merged transcript is the chunks' shifted items in the order the chunks
  were produced, chunk \<open>i\<close> shifted by \<open>i * seg\<close>, and it is sorted by start time; the
  start times, and so the order, are the same after speaker resolution.
\<close>

theorem merged_transcript_sorted:
  assumes run: "transcribeLoop w customPrompt template chunkPaths 0 [] initialSpeakers [] tr
                  = (Inr allChunkResults, tr1)"
    and chunks: "\<forall>c\<in>set allChunkResults. sorted (map startTime (chunkTranscription c))
           \<and> (\<forall>it\<in>set (chunkTranscription c). 0 \<le> startTime it \<and> startTime it < seg)"
    and merged: "merged = mergeChunks seg allChunkResults []"
    and resolved: "identifySpeakersWithAudio w tr1 (emptyResults\<lparr>transcription := merged\<rparr>) path dir
                  = (Inr res, tr2)"
  shows "(\<forall>i<length allChunkResults. index (allChunkResults ! i) = i)
       \<and> merged = concat (map (\<lambda>c. map (rebase (real (index c) * seg)) (chunkTranscription c)) allChunkResults)
       \<and> sorted (map startTime merged)
       \<and> map startTime (transcription res) = map startTime merged
       \<and> sorted (map startTime (transcription res))"
proof -
  have idx: "\<forall>i<length allChunkResults. index (allChunkResults ! i) = i"
    using transcribeLoop_index(2) [OF run] by blast
  then have idx0: "\<forall>k<length allChunkResults. index (allChunkResults ! k) = 0 + k"
    by simp
  have m: "merged = concat (map (\<lambda>c. map (rebase (real (index c) * seg)) (chunkTranscription c)) allChunkResults)"
    by (simp add: merged mergeChunks_concat)
  have s: "sorted (map startTime merged)"
    unfolding m using sorted_blocks [OF idx0 chunks] by blast
  from identifySpeakersWithAudio_result [OF resolved]
  have r: "map startTime (transcription res) = map startTime merged"
    by (auto simp: applyMapping_times)
  from idx m s r show ?thesis by simp
qed

theorem merged_transcript_sorted_witness:
  "map startTime (mergeChunks segmentTime twoChunks []) = [0, 30, 600]
   \<and> sorted (map startTime (mergeChunks segmentTime twoChunks []))"
proof -
  define tr1 where "tr1 = snd (transcribeLoop twoChunkWorld None ''prompt'' [''chunk_000.mp3'', ''chunk_001.mp3''] 0 [] [] [] [])"
  have run: "transcribeLoop twoChunkWorld None ''prompt'' [''chunk_000.mp3'', ''chunk_001.mp3''] 0 [] [] [] []
               = (Inr twoChunks, tr1)"
    unfolding tr1_def using twoChunkWorld_run by (metis prod.collapse)
  have chunks: "\<forall>c\<in>set twoChunks. sorted (map startTime (chunkTranscription c))
           \<and> (\<forall>it\<in>set (chunkTranscription c). 0 \<le> startTime it \<and> startTime it < segmentTime)"
    by (simp add: twoChunks_def greeting_def reply_def hello_def segmentTime_def)
  have m: "mergeChunks segmentTime twoChunks [] = merged3"
    by (simp add: twoChunks_def merged3_def segmentTime_def rebase_def greeting_def reply_def hello_def)
  have upt3: "[0..<3] = [0, 1, 2]"
    by (simp add: numeral_3_eq_3 numeral_2_eq_2)
  have "\<exists>res tr2. identifySpeakersWithAudio twoChunkWorld tr1
            (emptyResults\<lparr>transcription := mergeChunks segmentTime twoChunks []\<rparr>) ''a.mp3'' ''tmp''
          = (Inr res, tr2)"
    unfolding m
    by (simp add: identifySpeakersWithAudio_def resolveWindows_def numChunks_def maxTime_def emptyResults_def upt3
          window_eval twoChunkWorld_def merged3_def)
  then obtain res tr2 where resolved: "identifySpeakersWithAudio twoChunkWorld tr1
            (emptyResults\<lparr>transcription := mergeChunks segmentTime twoChunks []\<rparr>) ''a.mp3'' ''tmp''
          = (Inr res, tr2)"
    by blast
  from merged_transcript_sorted [OF run chunks refl resolved]
  have "sorted (map startTime (mergeChunks segmentTime twoChunks []))"
    by blast
  moreover have "map startTime (mergeChunks segmentTime twoChunks []) = [0, 30, 600]"
    by (simp add: m merged3_def greeting_def reply_def hello_def rebase_def)
  ultimately show ?thesis by simp
qed

subsection \<open>The slug of the persisted artifact\<close>

lemma shoutWorld_simps:
  "readFile shoutWorld tr p = Inr (''data:'' @ p)"
  "mkdir shoutWorld tr p = None"
  "ffmpegExtract shoutWorld tr p s d out = None"
  "ffmpegSplit shoutWorld tr p dir seg = Inr [''chunk_000.mp3'']"
  "generateSpeakers shoutWorld tr dat = Inr []"
  "generateMapping shoutWorld tr mreq = Inr []"
  "generateTranscription shoutWorld tr req = Inr [hello]"
  "generateSummary shoutWorld tr ts = Inr (''Talk'', ''My Talk!'', ''points'')"
  "writeFile shoutWorld tr p = None"
  "pathJoin shoutWorld a b = a @ ''/'' @ b"
  "dirname shoutWorld p = ''.''"
  "promptPath shoutWorld = ''prompt.md''"
  "tempDir shoutWorld = ''temp_chunks''"
  "sampleName shoutWorld c k = ''sample_'' @ c @ ''_chunk'' @ replicate k (CHR ''I'') @ ''.mp3''"
  by (simp_all add: shoutWorld_def quietWorld_def)

lemmas main_eval = main_def processAudioFile_def pipeline_def discoverSpeakers_def
  transcribeChunk_def chunkRequest_def numeral_3_eq_3 identifySpeakersWithAudio_def resolveWindows_def
  numChunks_def maxTime_def emptyResults_def generateTitleAndSummary_def processTranscription_def
  outputPath_def Let_def identifyWindow_def chunkItems_def unknownSpeakers_def uniqueValues_def
  setAdd_def truthy_def getProperty_def setProperty_def inheritedNames_def bestItem_def
  extractAudioSegment_def mapHas_def identificationChunkTime_def
  initialState_def segmentTime_def hello_def rebase_def applyMapping_def orElse_def

text \<open>
  C7. The slug of a persisted artifact should consist of lowercase letters, digits and
  hyphens only, a slug returned otherwise being normalised before use. The program does
  not do so: on a one-chunk recording for which the summary call returns the slug
  \<^verbatim>\<open>My Talk!\<close>, the run ends with that call, the removal of the temporary directory
  and the write of the artifact, and the artifact's slug and file name are the returned
  string as it came, with its capitals, its space and its exclamation mark.
\<close>

theorem slug_written_as_returned:
  "map_sum id (infoSlug \<circ> info) (fst (main shoutWorld [] ''talk.m4a'' None)) = Inr ''My Talk!''
   \<and> take 3 (rev (snd (main shoutWorld [] ''talk.m4a'' None)))
        = [WriteFile ''./My Talk!.json'', Rm ''temp_chunks'', GenerateSummary [hello]]
   \<and> generateSummary shoutWorld [] [hello] = Inr (''Talk'', ''My Talk!'', ''points'')
   \<and> \<not> list_all slugChar ''My Talk!''"
  by (simp add: main_eval shoutWorld_simps slugChar_def)

end
